theory Spec2Isabelle
  imports Main
begin

section \<open>Exceptions\<close>

text \<open>
  The Python exceptions that the modelled functions can raise. Every \<open>raise\<close> of the
  source and every library call that can fail is a branch returning \<open>Inl\<close> of one of
  these; \<open>except Exception\<close> catches all of them, \<open>except sqlite3.Error\<close> only
  \<open>SqliteError\<close>.
\<close>

datatype exn =
    KeyError
  | IndexError
  | TypeError
  | AttributeError
  | UnboundLocalError
  | FileNotFoundError
  | EOFError
  | MergeError
  | SqliteError
  | DatabaseError
  | Cancelled
  | NotImplementedError

section \<open>Composite keys\<close>

text \<open>
  \<open>clean_primary_stat_df\<close> and \<open>clean_non_primary_stat_df\<close> of
  \<open>FbrefCleanPlayerMatches\<close> build the key column as
  \<^verbatim>\<open>df['player_match'] = df['pid'] + "_" + df['match_id']\<close>.
  Cell by cell this is string concatenation; pandas propagates a missing operand, so a
  null identifier gives a null key.
\<close>

definition derive_key :: "string option \<Rightarrow> string option \<Rightarrow> string option" where
  "derive_key a b =
     (case a of None \<Rightarrow> None
      | Some x \<Rightarrow> (case b of None \<Rightarrow> None | Some y \<Rightarrow> Some (x @ ''_'' @ y)))"

section \<open>The workflow controller\<close>

text \<open>
  \<open>SoccerDBWorkflowController.__init__\<close> builds \<open>self.steps\<close>, a list of
  (name, function, arguments). The functions are the module-level \<open>update_*\<close>
  functions of \<open>main.py\<close>; they are named by a datatype here and run through an
  interpreter \<open>call\<close> handed to \<open>run_workflow\<close>, which returns either the exception the
  function raised or unit, together with the new state of the world. The arguments are
  fields of the controller fixed at construction and are part of \<open>call\<close>.
\<close>

datatype step_fn =
    Update_seasons
  | Update_ls
  | Update_tls
  | Update_teams
  | Update_ptls
  | Update_players
  | Update_matches
  | Update_team_matches
  | Update_player_matches
  | Update_keeper_matches

definition steps :: "(string \<times> step_fn) list" where
  "steps =
     [(''seasons'', Update_seasons),
      (''ls'', Update_ls),
      (''tls'', Update_tls),
      (''teams'', Update_teams),
      (''ptls'', Update_ptls),
      (''players'', Update_players),
      (''matches'', Update_matches),
      (''team_matches'', Update_team_matches),
      (''player_matches'', Update_player_matches),
      (''keeper_matches'', Update_keeper_matches)]"

text \<open>
  \<^verbatim>\<open>next((index for index, (name, _, _) in enumerate(self.steps) if name == start_from), 0)\<close>:
  the index of the first step with that name, and the default 0 when the generator is
  exhausted.
\<close>

fun first_index :: "(string \<times> 'f) list \<Rightarrow> string \<Rightarrow> nat \<Rightarrow> nat option" where
  "first_index [] s i = None"
| "first_index ((name, f) # rest) s i =
     (if name = s then Some i else first_index rest s (Suc i))"

text \<open>
  \<open>if start_from:\<close> is false for \<open>None\<close> and for the empty string.
\<close>

definition start_index :: "(string \<times> 'f) list \<Rightarrow> string option \<Rightarrow> nat" where
  "start_index st start_from =
     (case start_from of
        None \<Rightarrow> 0
      | Some s \<Rightarrow>
          (if s = [] then 0
           else (case first_index st s 0 of None \<Rightarrow> 0 | Some i \<Rightarrow> i)))"

text \<open>
  What \<open>run_workflow\<close> itself writes to the logger: one \<open>Starting\<close> line per step, then
  \<open>Completed\<close> when the call returned, or \<open>ErrorIn\<close> from the \<open>except Exception\<close>
  branch.
\<close>

datatype event = Starting string | Completed string | ErrorIn string exn

fun run_steps ::
  "(step_fn \<Rightarrow> 'w \<Rightarrow> (exn + unit) \<times> 'w) \<Rightarrow> (string \<times> step_fn) list \<Rightarrow> 'w \<Rightarrow> event list \<times> 'w"
where
  "run_steps call [] w = ([], w)"
| "run_steps call ((name, func) # rest) w =
     (case call func w of
        (Inr u, w') \<Rightarrow>
          (case run_steps call rest w' of
             (evs, w'') \<Rightarrow> (Starting name # Completed name # evs, w''))
      | (Inl e, w') \<Rightarrow>
          (case run_steps call rest w' of
             (evs, w'') \<Rightarrow> (Starting name # ErrorIn name e # evs, w'')))"

definition run_workflow ::
  "(step_fn \<Rightarrow> 'w \<Rightarrow> (exn + unit) \<times> 'w) \<Rightarrow> string option \<Rightarrow> 'w \<Rightarrow> event list \<times> 'w"
where
  "run_workflow call start_from w =
     run_steps call (drop (start_index steps start_from) steps) w"

text \<open>The names of the steps a run started, in the order it started them.\<close>

fun started :: "event list \<Rightarrow> string list" where
  "started [] = []"
| "started (Starting name # evs) = name # started evs"
| "started (_ # evs) = started evs"

section \<open>Tables\<close>

text \<open>
  A pandas DataFrame is modelled by its column labels and its rows in order. A row is a
  map from column label to value, as the spec's Record; a null cell (NaN, None) and a
  cell under a label the frame does not have both read \<open>None\<close>. The positional index
  that \<open>reset_index(drop=True)\<close> renumbers carries no data and is not modelled.
\<close>

datatype val = Str string | Num int

type_synonym row = "string \<Rightarrow> val option"

record frame =
  columns :: "string list"
  rows :: "row list"

text \<open>A row seen through the columns of its frame.\<close>

definition restrict_row :: "string list \<Rightarrow> row \<Rightarrow> row" where
  "restrict_row cs r = (\<lambda>c. if c \<in> set cs then r c else None)"

text \<open>\<open>df[c]\<close>: the cells of one column; \<open>KeyError\<close> for a label the frame does not have.\<close>

definition column :: "frame \<Rightarrow> string \<Rightarrow> exn + val option list" where
  "column df c =
     (if c \<in> set (columns df) then Inr (map (\<lambda>r. r c) (rows df)) else Inl KeyError)"

text \<open>
  \<open>pd.concat([a, b], axis=0)\<close>: the rows of \<open>a\<close>, then the rows of \<open>b\<close>, under the
  columns of \<open>a\<close> followed by the columns only \<open>b\<close> has; a cell a row's own frame did
  not have is null.
\<close>

definition concat_frames :: "frame \<Rightarrow> frame \<Rightarrow> frame" where
  "concat_frames a b =
     \<lparr>columns = columns a @ filter (\<lambda>c. c \<notin> set (columns a)) (columns b),
      rows = map (restrict_row (columns a)) (rows a) @ map (restrict_row (columns b)) (rows b)\<rparr>"

text \<open>\<open>df.dropna(subset=[c])\<close>: the rows whose cell in column \<open>c\<close> is not null.\<close>

definition dropna :: "string \<Rightarrow> frame \<Rightarrow> exn + frame" where
  "dropna c df =
     (if c \<in> set (columns df)
      then Inr (df\<lparr>rows := filter (\<lambda>r. r c \<noteq> None) (rows df)\<rparr>)
      else Inl KeyError)"

text \<open>
  \<open>df.drop_duplicates(subset=[c])\<close> with the default \<open>keep='first'\<close>: going down the
  rows, a row is kept when its cell in column \<open>c\<close> has not been seen in a row above.
\<close>

fun keep_first :: "string \<Rightarrow> val option set \<Rightarrow> row list \<Rightarrow> row list" where
  "keep_first c seen [] = []"
| "keep_first c seen (r # rs) =
     (if r c \<in> seen then keep_first c seen rs else r # keep_first c (insert (r c) seen) rs)"

definition drop_duplicates :: "string \<Rightarrow> frame \<Rightarrow> exn + frame" where
  "drop_duplicates c df =
     (if c \<in> set (columns df)
      then Inr (df\<lparr>rows := keep_first c {} (rows df)\<rparr>)
      else Inl KeyError)"

text \<open>
  \<open>table[~table[pk].isin(new[pk])]\<close>: the rows of \<open>table\<close> whose key is not a key of
  \<open>new\<close>. The column of \<open>table\<close> is read first, then the column of \<open>new\<close>; subscripting
  \<open>None\<close> is a \<open>TypeError\<close>.
\<close>

definition not_isin :: "string \<Rightarrow> frame \<Rightarrow> frame option \<Rightarrow> exn + frame" where
  "not_isin pk table new =
     (case column table pk of
        Inl e \<Rightarrow> Inl e
      | Inr _ \<Rightarrow>
          (case new of
             None \<Rightarrow> Inl TypeError
           | Some n \<Rightarrow>
               (case column n pk of
                  Inl e \<Rightarrow> Inl e
                | Inr keys \<Rightarrow>
                    Inr (table\<lparr>rows := filter (\<lambda>r. r pk \<notin> set keys) (rows table)\<rparr>))))"

section \<open>The merge of \<open>FbrefClean.update_table\<close>\<close>

text \<open>
  The table that \<open>update_table\<close> computes and returns (the lines before it saves the
  table): \<open>self.db_table\<close> is the production table the instance loaded,
  \<open>new_cleaned_data\<close> the batch. \<open>pd.concat\<close> skips an entry that is \<open>None\<close>, which is
  what a subclass's \<open>clean_data\<close> returns after it has caught its own exception.
\<close>

definition new_table :: "string \<Rightarrow> frame \<Rightarrow> frame option \<Rightarrow> bool \<Rightarrow> exn + frame" where
  "new_table primary_key db_table new_cleaned_data replace_vals =
     (case (if replace_vals then not_isin primary_key db_table new_cleaned_data
            else Inr db_table) of
        Inl e \<Rightarrow> Inl e
      | Inr table \<Rightarrow>
          (case dropna primary_key
                  (case new_cleaned_data of
                     None \<Rightarrow> table
                   | Some n \<Rightarrow> concat_frames table n) of
             Inl e \<Rightarrow> Inl e
           | Inr t \<Rightarrow> drop_duplicates primary_key t))"

text \<open>
  The same merge as section 4.3 and the upsert conflict property of the spec word it: the
  two row sets concatenated in new-then-existing order, then null keys dropped, then the
  first occurrence of each key kept.
\<close>

definition upsert_new_then_existing :: "string \<Rightarrow> frame \<Rightarrow> frame \<Rightarrow> exn + frame" where
  "upsert_new_then_existing primary_key existing new =
     (case dropna primary_key (concat_frames new existing) of
        Inl e \<Rightarrow> Inl e
      | Inr t \<Rightarrow> drop_duplicates primary_key t)"

text \<open>The cells of a result under the given columns, row by row, for reading results.\<close>

definition cells :: "string list \<Rightarrow> exn + frame \<Rightarrow> exn + val option list list" where
  "cells cs res =
     (case res of Inl e \<Rightarrow> Inl e | Inr df \<Rightarrow> Inr (map (\<lambda>r. map r cs) (rows df)))"

text \<open>A row written as a literal record: the listed cells, every other cell null.\<close>

definition record_of :: "(string \<times> val) list \<Rightarrow> row" where
  "record_of kvs = map_of kvs"

section \<open>Reading tables\<close>

text \<open>
  The rows of a frame as its columns show them, and the rows of a list whose cell under
  a label is not null. Both only serve to state properties.
\<close>

definition visible :: "frame \<Rightarrow> row list" where
  "visible df = map (restrict_row (columns df)) (rows df)"

definition with_key :: "string \<Rightarrow> row list \<Rightarrow> row list" where
  "with_key c xs = filter (\<lambda>r. r c \<noteq> None) xs"

section \<open>Reading the order of the steps\<close>

text \<open>
  A step function that only records that it was called, for looking at what
  \<open>run_workflow\<close> applies and in which order: it appends its own name to the list it
  is given as the world, and the one for team-league-seasons then raises.
\<close>

definition record_call :: "step_fn \<Rightarrow> step_fn list \<Rightarrow> (exn + unit) \<times> step_fn list" where
  "record_call func w = (if func = Update_tls then Inl KeyError else Inr (), w @ [func])"

text \<open>
  The entities from whose primary keys an entity's own primary key is concatenated, as
  (child, parent) pairs, read off the cleaners:
  \<^verbatim>\<open>ls_id = lg_id + "_" + season\<close> (\<open>fbref_clean_ls.py\<close>),
  \<^verbatim>\<open>tls_id = tid + "_" + k\<close> with \<open>k\<close> the \<open>ls_id\<close> (\<open>fbref_clean_tls.py\<close>),
  \<^verbatim>\<open>ptls_id = str(pid) + "_" + str(k)\<close> with \<open>k\<close> the \<open>tls_id\<close> (\<open>fbref_clean_ptls.py\<close>),
  \<^verbatim>\<open>team_match = tid + "_" + match_id\<close> (\<open>fbref_clean_team_matches.py\<close>),
  \<^verbatim>\<open>player_match = pid + "_" + match_id\<close> (\<open>fbref_clean_player_matches.py\<close>) and
  \<^verbatim>\<open>keeper_match = player_match + "_G"\<close> (\<open>fbref_clean_keeper_matches.py\<close>).
  The primary keys are \<open>season\<close>, \<open>ls_id\<close>, \<open>tid\<close>, \<open>tls_id\<close>, \<open>pid\<close>, \<open>ptls_id\<close>,
  \<open>match_id\<close>, \<open>team_match\<close>, \<open>player_match\<close> and \<open>keeper_match\<close>, set by the
  constructors of the cleaners; \<open>lg_id\<close> is the key column of the leagues table.
\<close>

definition key_parents :: "(string \<times> string) list" where
  "key_parents =
     [(''ls'', ''leagues''), (''ls'', ''seasons''),
      (''tls'', ''teams''), (''tls'', ''ls''),
      (''ptls'', ''players''), (''ptls'', ''tls''),
      (''team_matches'', ''teams''), (''team_matches'', ''matches''),
      (''player_matches'', ''players''), (''player_matches'', ''matches''),
      (''keeper_matches'', ''player_matches'')]"

text \<open>Both names are steps of the controller's list and the first comes earlier.\<close>

definition scheduled_before :: "string \<Rightarrow> string \<Rightarrow> bool" where
  "scheduled_before a b =
     (case first_index steps a 0 of
        None \<Rightarrow> False
      | Some i \<Rightarrow> (case first_index steps b 0 of None \<Rightarrow> False | Some j \<Rightarrow> i < j))"

text \<open>\<open>str.startswith\<close>.\<close>

definition starts_with :: "string \<Rightarrow> string \<Rightarrow> bool" where
  "starts_with prefix s = (take (length prefix) s = prefix)"

section \<open>The world outside the process\<close>

text \<open>
  What the pipeline reads and writes: the CSV files by path, the tables of the SQLite
  database \<open>data/soccerdb.db\<close>, the Bookkeeping Index \<open>config/db_dict.json\<close> (entity
  name to last update date and list of known ids), the operator's pending replies to
  \<open>input()\<close>, and what has been passed to \<open>logger.error\<close> or printed by an
  \<open>except\<close> branch (the function that caught, and the exception). A CSV file read back is
  the frame that was written.
\<close>

record entry =
  update_date :: string
  ids :: "val option list"

record world =
  files :: "string \<rightharpoonup> frame"
  store :: "string \<rightharpoonup> frame"
  db_dict :: "string \<rightharpoonup> entry"
  answers :: "string list"
  errors :: "(string \<times> exn) list"

definition log_error :: "string \<Rightarrow> exn \<Rightarrow> world \<Rightarrow> world" where
  "log_error fn e w = w\<lparr>errors := errors w @ [(fn, e)]\<rparr>"

text \<open>An f-string prints \<open>None\<close> as the word.\<close>

definition fmt :: "string option \<Rightarrow> string" where
  "fmt u = (case u of None \<Rightarrow> ''None'' | Some s \<Rightarrow> s)"

definition clean_path :: "string \<Rightarrow> string option \<Rightarrow> string" where
  "clean_path name update_id =
     ''data/fbref/'' @ name @ ''/'' @ name @ ''_'' @ fmt update_id @ ''.csv''"

definition backup_path :: "string \<Rightarrow> string option \<Rightarrow> string" where
  "backup_path name update_id =
     ''data/fbref/'' @ name @ ''/'' @ name @ ''_backup_'' @ fmt update_id @ ''.csv''"

definition table_path :: "string \<Rightarrow> string" where
  "table_path name = ''data/db_tables/'' @ name @ ''.csv''"

definition read_csv :: "string \<Rightarrow> world \<Rightarrow> exn + frame" where
  "read_csv path w = (case files w path of None \<Rightarrow> Inl FileNotFoundError | Some df \<Rightarrow> Inr df)"

text \<open>\<open>input(...)\<close> takes the operator's next reply; at end of input it raises.\<close>

definition input :: "world \<Rightarrow> (exn + string) \<times> world" where
  "input w =
     (case answers w of
        [] \<Rightarrow> (Inl EOFError, w)
      | a # rest \<Rightarrow> (Inr a, w\<lparr>answers := rest\<rparr>))"

text \<open>\<open>str.lower\<close> on ASCII letters.\<close>

definition lower_char :: "char \<Rightarrow> char" where
  "lower_char c =
     (case map_of (zip ''ABCDEFGHIJKLMNOPQRSTUVWXYZ'' ''abcdefghijklmnopqrstuvwxyz'') c of
        Some l \<Rightarrow> l
      | None \<Rightarrow> c)"

definition lower :: "string \<Rightarrow> string" where
  "lower s = map lower_char s"

section \<open>The cleaner: \<open>FbrefClean\<close>\<close>

text \<open>
  \<open>save_data\<close>: a DataFrame is written to the path and the result is \<open>True\<close>; for
  \<open>None\<close> (neither a DataFrame nor a dict) nothing is written and the result is
  \<open>False\<close>. Only frames are written by the functions modelled here.
\<close>

definition save_data :: "frame option \<Rightarrow> string \<Rightarrow> world \<Rightarrow> bool \<times> world" where
  "save_data data file_path w =
     (case data of
        Some df \<Rightarrow> (True, w\<lparr>files := (files w)(file_path \<mapsto> df)\<rparr>)
      | None \<Rightarrow> (False, w))"

text \<open>
  \<open>backup_table\<close>: when the backup file exists the operator is asked, and any reply but
  yes returns without writing.
\<close>

definition backup_table ::
  "string \<Rightarrow> frame \<Rightarrow> string option \<Rightarrow> world \<Rightarrow> (exn + unit) \<times> world" where
  "backup_table name db_table update_id w =
     (let file_path = backup_path name update_id in
      if files w file_path \<noteq> None then
        (case input w of
           (Inl e, w1) \<Rightarrow> (Inl e, w1)
         | (Inr user_input, w1) \<Rightarrow>
             if lower user_input \<noteq> ''yes'' then (Inr (), w1)
             else (Inr (), snd (save_data (Some db_table) file_path w1)))
      else (Inr (), snd (save_data (Some db_table) file_path w)))"

text \<open>
  \<open>FbrefClean.update_table\<close>: the merged table is saved as the production CSV and
  returned.
\<close>

definition update_table ::
  "string \<Rightarrow> string \<Rightarrow> frame \<Rightarrow> frame option \<Rightarrow> bool \<Rightarrow> world \<Rightarrow> (exn + frame) \<times> world" where
  "update_table name primary_key db_table new_cleaned_data replace_vals w =
     (case new_table primary_key db_table new_cleaned_data replace_vals of
        Inl e \<Rightarrow> (Inl e, w)
      | Inr t \<Rightarrow> (Inr t, snd (save_data (Some t) (table_path name) w)))"

text \<open>
  \<open>FbrefClean.update_db_dict\<close>: the entry of the entity gets the date and the key
  column of the table it is given; an exception is caught and logged, and then nothing
  is written.
\<close>

definition FbrefClean_update_db_dict ::
  "string \<Rightarrow> string \<Rightarrow> frame \<Rightarrow> string \<Rightarrow> world \<Rightarrow> world" where
  "FbrefClean_update_db_dict name primary_key new_tab last_date w =
     (case db_dict w name of
        None \<Rightarrow> log_error ''update_db_dict'' KeyError w
      | Some _ \<Rightarrow>
          (case column new_tab primary_key of
             Inl e \<Rightarrow> log_error ''update_db_dict'' e w
           | Inr keys \<Rightarrow>
               w\<lparr>db_dict := (db_dict w)(name \<mapsto> \<lparr>update_date = last_date, ids = keys\<rparr>)\<rparr>))"

text \<open>
  The body of the \<open>try\<close> block of \<open>clean_save_update_data\<close>. \<open>clean_result\<close> is what the
  subclass's \<open>clean_data(update_id)\<close> does on this call: raise, or return a frame, or
  return \<open>None\<close> after catching its own exception. The local variable \<open>clean_data\<close> is
  unbound when \<open>skip_clean\<close> is true.
\<close>

definition clean_save_update_body ::
  "string \<Rightarrow> string \<Rightarrow> frame \<Rightarrow> exn + frame option \<Rightarrow> string \<Rightarrow> string option \<Rightarrow> bool \<Rightarrow> world
     \<Rightarrow> (exn + frame) \<times> world" where
  "clean_save_update_body name primary_key db_table clean_result last_date update_id skip_clean w =
     (case (if skip_clean then Inr (None, w)
            else (case clean_result of
                    Inl e \<Rightarrow> Inl (e, w)
                  | Inr cd \<Rightarrow> Inr (Some cd, snd (save_data cd (clean_path name update_id) w)))) of
        Inl (e, w1) \<Rightarrow> (Inl e, w1)
      | Inr (clean_data, w1) \<Rightarrow>
          (case input w1 of
             (Inl e, w2) \<Rightarrow> (Inl e, w2)
           | (Inr user_input, w2) \<Rightarrow>
               if lower user_input \<noteq> ''yes'' then (Inl Cancelled, w2)
               else
                 (case backup_table name db_table update_id w2 of
                    (Inl e, w3) \<Rightarrow> (Inl e, w3)
                  | (Inr _, w3) \<Rightarrow>
                      (case input w3 of
                         (Inl e, w4) \<Rightarrow> (Inl e, w4)
                       | (Inr user_input2, w4) \<Rightarrow>
                           if lower user_input2 \<noteq> ''yes'' then (Inl Cancelled, w4)
                           else
                             (case clean_data of
                                None \<Rightarrow> (Inl UnboundLocalError, w4)
                              | Some cd \<Rightarrow>
                                  (case update_table name primary_key db_table cd False w4 of
                                     (Inl e, w5) \<Rightarrow> (Inl e, w5)
                                   | (Inr t, w5) \<Rightarrow>
                                       (Inr t, FbrefClean_update_db_dict name primary_key t last_date w5)))))))"

text \<open>
  \<open>clean_save_update_data\<close>: the \<open>except Exception\<close> branch logs and falls off the end
  of the function, so the caller gets \<open>None\<close> and no exception.
\<close>

definition clean_save_update_data ::
  "string \<Rightarrow> string \<Rightarrow> frame \<Rightarrow> exn + frame option \<Rightarrow> string \<Rightarrow> string option \<Rightarrow> bool \<Rightarrow> world
     \<Rightarrow> frame option \<times> world" where
  "clean_save_update_data name primary_key db_table clean_result last_date update_id skip_clean w =
     (case clean_save_update_body name primary_key db_table clean_result last_date update_id
             skip_clean w of
        (Inr t, w') \<Rightarrow> (Some t, w')
      | (Inl e, w') \<Rightarrow> (None, log_error ''clean_save_update_data'' e w'))"

section \<open>The uploader: \<open>UploadSoccerDB\<close>\<close>

text \<open>
  Library behaviour and store behaviour the uploader depends on and the sources do not
  fix: what \<open>re.findall\<close> returns for the foreign-key pattern on a line, what
  \<open>pd.to_numeric(..., errors='coerce').astype('Int64')\<close> makes of a cell, and whether
  the database raises when a table is read or a chunk is appended. Every property below
  holds for all of them, or names the case it is about.
\<close>

record env =
  re_findall :: "string \<Rightarrow> string list"
  to_Int64 :: "val option \<Rightarrow> val option"
  load_error :: "string \<Rightarrow> exn option"
  commit_error :: "string \<Rightarrow> frame \<Rightarrow> exn option"

text \<open>Python's \<open>sub in s\<close> on strings: \<open>sub\<close> occurs in \<open>s\<close> as a contiguous block.\<close>

fun contains :: "string \<Rightarrow> string \<Rightarrow> bool" where
  "contains sub [] = (sub = [])"
| "contains sub (c # cs) = (take (length sub) (c # cs) = sub \<or> contains sub cs)"

text \<open>\<open>query_line.strip().split(" ")[0]\<close> on ASCII text.\<close>

definition is_space :: "char \<Rightarrow> bool" where
  "is_space c = (c \<in> set [CHR '' '', CHR 0x09, CHR 0x0A, CHR 0x0B, CHR 0x0C, CHR 0x0D,
                            CHR 0x1C, CHR 0x1D, CHR 0x1E, CHR 0x1F])"

definition strip :: "string \<Rightarrow> string" where
  "strip s = rev (dropWhile is_space (rev (dropWhile is_space s)))"

definition first_field :: "string \<Rightarrow> string" where
  "first_field s = takeWhile (\<lambda>c. c \<noteq> CHR '' '') (strip s)"

text \<open>
  \<open>set_create_table_query\<close> stores \<open>"".join(...)\<close> of the lines of the configuration,
  one string, or \<open>None\<close> when the entity has no query. The two functions below iterate
  \<open>for query_line in self.create_table_query\<close>: iterating a Python string yields its
  characters, each a string of length one. Iterating \<open>None\<close> is a \<open>TypeError\<close>.
\<close>

definition iter_str :: "string \<Rightarrow> string list" where
  "iter_str s = map (\<lambda>c. [c]) s"

fun foreign_keys_loop :: "env \<Rightarrow> string list \<Rightarrow> string list \<Rightarrow> exn + string list" where
  "foreign_keys_loop ev [] foreign_keys = Inr foreign_keys"
| "foreign_keys_loop ev (query_line # rest) foreign_keys =
     (if contains ''FOREIGN KEY'' query_line then
        (case re_findall ev query_line of
           [] \<Rightarrow> Inl IndexError
         | m # _ \<Rightarrow> foreign_keys_loop ev rest (foreign_keys @ [m]))
      else foreign_keys_loop ev rest foreign_keys)"

definition get_foreign_keys_from_query :: "env \<Rightarrow> string option \<Rightarrow> exn + string list" where
  "get_foreign_keys_from_query ev create_table_query =
     (case create_table_query of
        None \<Rightarrow> Inl TypeError
      | Some q \<Rightarrow> foreign_keys_loop ev (iter_str q) [])"

definition get_int_columns_from_query :: "string option \<Rightarrow> exn + string list" where
  "get_int_columns_from_query create_table_query =
     (case create_table_query of
        None \<Rightarrow> Inl TypeError
      | Some q \<Rightarrow> Inr (map first_field (filter (contains ''INT'') (iter_str q))))"

text \<open>
  \<open>check_foreign_key_constraint\<close>: the index is subscripted with the foreign-key column
  name itself, then the rows whose cell is among those ids are kept.
\<close>

definition check_foreign_key_constraint :: "frame \<Rightarrow> string \<Rightarrow> world \<Rightarrow> exn + frame" where
  "check_foreign_key_constraint data foreign_key w =
     (case db_dict w foreign_key of
        None \<Rightarrow> Inl KeyError
      | Some e \<Rightarrow>
          (case column data foreign_key of
             Inl x \<Rightarrow> Inl x
           | Inr _ \<Rightarrow>
               Inr (data\<lparr>rows := filter (\<lambda>r. r foreign_key \<in> set (ids e)) (rows data)\<rparr>)))"

fun check_foreign_keys :: "frame \<Rightarrow> string list \<Rightarrow> world \<Rightarrow> exn + frame" where
  "check_foreign_keys data [] w = Inr data"
| "check_foreign_keys data (key # rest) w =
     (case check_foreign_key_constraint data key w of
        Inl e \<Rightarrow> Inl e
      | Inr d \<Rightarrow> check_foreign_keys d rest w)"

fun convert_to_int :: "env \<Rightarrow> frame \<Rightarrow> string list \<Rightarrow> exn + frame" where
  "convert_to_int ev data [] = Inr data"
| "convert_to_int ev data (col # int_cols) =
     (if col \<in> set (columns data)
      then convert_to_int ev
             (data\<lparr>rows := map (\<lambda>r. r(col := to_Int64 ev (r col))) (rows data)\<rparr>) int_cols
      else Inl KeyError)"

text \<open>
  \<open>load_table\<close>: \<open>SELECT * FROM table\<close>. A \<open>sqlite3.Error\<close> is caught and logged and the
  function returns \<open>None\<close>; any other exception leaves the function. Reading a table the
  database does not have fails in pandas with its own \<open>DatabaseError\<close>.
\<close>

definition load_table :: "env \<Rightarrow> string \<Rightarrow> world \<Rightarrow> (exn + frame option) \<times> world" where
  "load_table ev table w =
     (case load_error ev table of
        Some e \<Rightarrow> (if e = SqliteError then (Inr None, log_error ''load_table'' e w) else (Inl e, w))
      | None \<Rightarrow>
          (case store w table of
             None \<Rightarrow> (Inl DatabaseError, w)
           | Some df \<Rightarrow> (Inr (Some df), w)))"

text \<open>
  \<open>check_table_constraints\<close>: rows already in the database table are dropped, then one
  filter per foreign key the query scan found, then the integer columns the query scan
  found are converted. \<open>db_table.shape\<close> on \<open>None\<close> is an \<open>AttributeError\<close>.
\<close>

definition check_table_constraints ::
  "env \<Rightarrow> string \<Rightarrow> string \<Rightarrow> string option \<Rightarrow> frame \<Rightarrow> world \<Rightarrow> (exn + frame) \<times> world" where
  "check_table_constraints ev name primary_key create_table_query data w =
     (case load_table ev name w of
        (Inl e, w1) \<Rightarrow> (Inl e, w1)
      | (Inr None, w1) \<Rightarrow> (Inl AttributeError, w1)
      | (Inr (Some db_table), w1) \<Rightarrow>
          (case (if rows db_table \<noteq> [] then
                   (case column db_table primary_key of
                      Inl e \<Rightarrow> Inl e
                    | Inr seen_ids \<Rightarrow>
                        (case column data primary_key of
                           Inl e \<Rightarrow> Inl e
                         | Inr _ \<Rightarrow>
                             Inr (data\<lparr>rows := filter (\<lambda>r. r primary_key \<notin> set seen_ids) (rows data)\<rparr>)))
                 else Inr data) of
             Inl e \<Rightarrow> (Inl e, w1)
           | Inr d1 \<Rightarrow>
               (case get_foreign_keys_from_query ev create_table_query of
                  Inl e \<Rightarrow> (Inl e, w1)
                | Inr foreign_keys \<Rightarrow>
                    (case check_foreign_keys d1 foreign_keys w1 of
                       Inl e \<Rightarrow> (Inl e, w1)
                     | Inr d2 \<Rightarrow>
                         (case get_int_columns_from_query create_table_query of
                            Inl e \<Rightarrow> (Inl e, w1)
                          | Inr int_keys \<Rightarrow>
                              (case convert_to_int ev d2 int_keys of
                                 Inl e \<Rightarrow> (Inl e, w1)
                               | Inr d3 \<Rightarrow> (Inr d3, w1)))))))"

text \<open>
  \<open>chunk.to_sql(name, con, if_exists='append', index=False)\<close>: the rows are appended to
  the table, which is created with the chunk's columns when it does not exist; a column
  the table does not have is an error of the database.
\<close>

definition to_sql ::
  "env \<Rightarrow> string \<Rightarrow> frame \<Rightarrow> (string \<rightharpoonup> frame) \<Rightarrow> exn + (string \<rightharpoonup> frame)" where
  "to_sql ev name chunk st =
     (case commit_error ev name chunk of
        Some e \<Rightarrow> Inl e
      | None \<Rightarrow>
          (case st name of
             None \<Rightarrow> Inr (st(name \<mapsto> chunk))
           | Some t \<Rightarrow>
               if set (columns chunk) \<subseteq> set (columns t)
               then Inr (st(name \<mapsto> t\<lparr>rows := rows t @ map (restrict_row (columns chunk)) (rows chunk)\<rparr>))
               else Inl SqliteError))"

text \<open>\<open>range(0, total_rows, step)\<close>.\<close>

definition range_step :: "nat \<Rightarrow> nat \<Rightarrow> nat list" where
  "range_step total_rows step = map (\<lambda>i. i * step) [0..<(total_rows + step - 1) div step]"

fun upload_chunks ::
  "env \<Rightarrow> string \<Rightarrow> frame \<Rightarrow> nat list \<Rightarrow> (string \<rightharpoonup> frame) \<Rightarrow> exn option \<times> (string \<rightharpoonup> frame)" where
  "upload_chunks ev name data [] st = (None, st)"
| "upload_chunks ev name data (start # rest) st =
     (let stop = min (start + 5000) (length (rows data));
          chunk = data\<lparr>rows := take (stop - start) (drop start (rows data))\<rparr>
      in case to_sql ev name chunk st of
           Inl e \<Rightarrow> (Some e, st)
         | Inr st' \<Rightarrow> upload_chunks ev name data rest st')"

text \<open>
  \<open>upload_to_db\<close>: the chunks are appended in order; an exception stops the loop, is
  caught by \<open>except Exception\<close> and logged, and the function returns normally. Chunks
  appended before it stay in the table.
\<close>

definition upload_to_db :: "env \<Rightarrow> string \<Rightarrow> frame \<Rightarrow> world \<Rightarrow> world" where
  "upload_to_db ev name data w =
     (case upload_chunks ev name data (range_step (length (rows data)) 5000) (store w) of
        (None, st) \<Rightarrow> w\<lparr>store := st\<rparr>
      | (Some e, st) \<Rightarrow> log_error ''upload_to_db'' e (w\<lparr>store := st\<rparr>))"

text \<open>
  \<open>UploadSoccerDB.update_db_dict\<close>: the ids of the entity's entry become the key column
  of the frame it is given; an exception is caught and logged.
\<close>

definition UploadSoccerDB_update_db_dict :: "string \<Rightarrow> string \<Rightarrow> frame \<Rightarrow> world \<Rightarrow> world" where
  "UploadSoccerDB_update_db_dict name primary_key clean_data w =
     (case column clean_data primary_key of
        Inl e \<Rightarrow> log_error ''update_db_dict'' e w
      | Inr seen_ids \<Rightarrow>
          (case db_dict w name of
             None \<Rightarrow> log_error ''update_db_dict'' KeyError w
           | Some e \<Rightarrow> w\<lparr>db_dict := (db_dict w)(name \<mapsto> e\<lparr>ids := seen_ids\<rparr>)\<rparr>))"

text \<open>
  \<open>upload_clean_data\<close>: the batch file (or, without an update id, the production CSV)
  is read, checked, uploaded, and the index entry is updated from the checked frame.
\<close>

definition upload_clean_data ::
  "env \<Rightarrow> string \<Rightarrow> string \<Rightarrow> string option \<Rightarrow> string option \<Rightarrow> world \<Rightarrow> (exn + unit) \<times> world" where
  "upload_clean_data ev name primary_key create_table_query update_id w =
     (case read_csv (case update_id of
                       Some u \<Rightarrow> clean_path name (Some u)
                     | None \<Rightarrow> table_path name) w of
        Inl e \<Rightarrow> (Inl e, w)
      | Inr data \<Rightarrow>
          (case check_table_constraints ev name primary_key create_table_query data w of
             (Inl e, w1) \<Rightarrow> (Inl e, w1)
           | (Inr clean_data, w1) \<Rightarrow>
               (Inr (),
                UploadSoccerDB_update_db_dict name primary_key clean_data
                  (upload_to_db ev name clean_data w1))))"

section \<open>A step of the workflow: \<open>update_seasons\<close>\<close>

text \<open>
  The constructor of \<open>FbrefClean\<close> calls \<open>load_data\<close>, which reads the eleven production
  CSV files, and keeps the entity's own as \<open>self.db_table\<close>.
\<close>

definition valid_entity_names :: "string list" where
  "valid_entity_names =
     [''seasons'', ''leagues'', ''ls'', ''teams'', ''tls'', ''players'', ''ptls'',
      ''matches'', ''team_matches'', ''player_matches'', ''keeper_matches'']"

definition load_data :: "world \<Rightarrow> exn + (string \<rightharpoonup> frame)" where
  "load_data w =
     (if list_all (\<lambda>n. files w (table_path n) \<noteq> None) valid_entity_names
      then Inr (\<lambda>n. if n \<in> set valid_entity_names then files w (table_path n) else None)
      else Inl FileNotFoundError)"

text \<open>
  \<open>update_seasons(update_id, last_date)\<close>: the cleaner and the uploader are constructed,
  then \<open>clean_save_update_data\<close> and \<open>upload_clean_data\<close> are called in turn; the result of
  the first is not looked at. The uploader's query and primary key come from the
  configuration files; the cleaner's primary key is \<open>season\<close>.
\<close>

definition update_seasons ::
  "env \<Rightarrow> string option \<Rightarrow> string \<Rightarrow> exn + frame option \<Rightarrow> string \<Rightarrow> string \<Rightarrow> world
     \<Rightarrow> (exn + unit) \<times> world" where
  "update_seasons ev create_table_query uploader_key clean_result update_id last_date w =
     (case load_data w of
        Inl e \<Rightarrow> (Inl e, w)
      | Inr data_dict \<Rightarrow>
          (case data_dict ''seasons'' of
             None \<Rightarrow> (Inl KeyError, w)
           | Some db_table \<Rightarrow>
               (case clean_save_update_data ''seasons'' ''season'' db_table clean_result
                       last_date (Some update_id) False w of
                  (_, w1) \<Rightarrow>
                    upload_clean_data ev ''seasons'' uploader_key create_table_query
                      (Some update_id) w1)))"

section \<open>The reconciler: \<open>FbrefCleanMatchStats.concat_clean_save_all_match_stats\<close>\<close>

text \<open>
  The cleaned sub-table of one statistic is read from
  \<open>data/fbref/{name}/temp/{stat}_df_clean_{update_id}.csv\<close>; all of them are read, in
  the order of \<open>self.stats\<close>, before anything is merged.
\<close>

definition temp_path :: "string \<Rightarrow> string \<Rightarrow> string option \<Rightarrow> string" where
  "temp_path name stat update_id =
     ''data/fbref/'' @ name @ ''/temp/'' @ stat @ ''_df_clean_'' @ fmt update_id @ ''.csv''"

fun load_stats :: "string \<Rightarrow> string option \<Rightarrow> string list \<Rightarrow> world \<Rightarrow> exn + frame list" where
  "load_stats name update_id [] w = Inr []"
| "load_stats name update_id (stat # rest) w =
     (case read_csv (temp_path name stat update_id) w of
        Inl e \<Rightarrow> Inl e
      | Inr df \<Rightarrow>
          (case load_stats name update_id rest w of
             Inl e \<Rightarrow> Inl e
           | Inr dfs \<Rightarrow> Inr (df # dfs)))"

text \<open>
  The secondary sub-tables are folded with \<open>df_concat.merge(df, how='outer', on=pk)\<close>.
  The outer merge is a parameter: the properties below hold whatever it returns.
\<close>

fun merge_secondary ::
  "(string \<Rightarrow> frame \<Rightarrow> frame \<Rightarrow> exn + frame) \<Rightarrow> string \<Rightarrow> frame \<Rightarrow> frame list \<Rightarrow> exn + frame" where
  "merge_secondary outer pk df_concat [] = Inr df_concat"
| "merge_secondary outer pk df_concat (df # rest) =
     (case outer pk df_concat df of
        Inl e \<Rightarrow> Inl e
      | Inr m \<Rightarrow> merge_secondary outer pk m rest)"

text \<open>
  \<open>set_index(pk)\<close> takes the key column out of the columns and makes it the row label;
  the label of a row is still read as its cell under \<open>pk\<close>. \<open>reset_index()\<close> puts the
  label back as the first column.
\<close>

definition set_index :: "string \<Rightarrow> frame \<Rightarrow> exn + frame" where
  "set_index pk df =
     (if pk \<in> set (columns df) then Inr (df\<lparr>columns := removeAll pk (columns df)\<rparr>)
      else Inl KeyError)"

definition reset_index :: "string \<Rightarrow> frame \<Rightarrow> frame" where
  "reset_index pk df = df\<lparr>columns := pk # columns df\<rparr>"

text \<open>\<open>df.dropna(subset=[pk]).drop_duplicates(subset=[pk]).set_index(pk)\<close>.\<close>

definition keyed :: "string \<Rightarrow> frame \<Rightarrow> exn + frame" where
  "keyed pk df =
     (case dropna pk df of
        Inl e \<Rightarrow> Inl e
      | Inr d1 \<Rightarrow>
          (case drop_duplicates pk d1 of
             Inl e \<Rightarrow> Inl e
           | Inr d2 \<Rightarrow> set_index pk d2))"

text \<open>
  One pass of the review loop that completes:
  \<^verbatim>\<open>primary_stat_df.loc[idx, col] = df_concat.loc[idx, col]\<close> where \<open>idx\<close> are the labels
  of the primary rows whose cell under \<open>col\<close> is null and whose label is a label of
  \<open>df_concat\<close>. Labels are unique in both frames, so each such cell gets the cell of the
  one secondary row with its label.
\<close>

definition fill_from :: "string \<Rightarrow> string \<Rightarrow> frame \<Rightarrow> frame \<Rightarrow> frame" where
  "fill_from pk col primary_stat_df df_concat =
     primary_stat_df\<lparr>rows :=
       map (\<lambda>r. if r col = None \<and> r pk \<in> (\<lambda>s. s pk) ` set (rows df_concat)
                then r(col := (case find (\<lambda>s. s pk = r pk) (rows df_concat) of
                                  Some s \<Rightarrow> s col
                                | None \<Rightarrow> None))
                else r)
           (rows primary_stat_df)\<rparr>"

text \<open>
  The review loop runs inside \<open>try: ... except: pass\<close>. For a column that the primary
  frame does not have, \<open>primary_stat_df[col]\<close> raises; for a column that \<open>df_concat\<close>
  does not have, \<open>df_concat.loc[idx, col]\<close> or \<open>df_concat.drop(columns=[col])\<close> raises,
  before anything is assigned. Either way the loop is left with the two frames as they
  were, and the columns after it in the list are not looked at.
\<close>

fun review_loop :: "string \<Rightarrow> string list \<Rightarrow> frame \<Rightarrow> frame \<Rightarrow> frame \<times> frame" where
  "review_loop pk [] primary_stat_df df_concat = (primary_stat_df, df_concat)"
| "review_loop pk (col # rest) primary_stat_df df_concat =
     (if col \<in> set (columns primary_stat_df) \<and> col \<in> set (columns df_concat)
      then review_loop pk rest (fill_from pk col primary_stat_df df_concat)
             (df_concat\<lparr>columns := removeAll col (columns df_concat)\<rparr>)
      else (primary_stat_df, df_concat))"

text \<open>
  \<open>left.merge(right, how='left', on=pk)\<close>. The key column of the right frame is dropped;
  a label that both frames have gets the suffix \<open>_x\<close> on the left and \<open>_y\<close> on the
  right. Each left row gives one row per right row with its key, or one row with null
  right cells when there is none. When the relabelling makes two labels of one side
  equal pandas raises \<open>MergeError\<close>; when a relabelled column meets a label of the other
  side pandas returns a frame with a repeated label, which a row that maps a label to
  one cell cannot hold, and the model stops with \<open>MergeError\<close> there too.
\<close>

definition left_label :: "string list \<Rightarrow> string \<Rightarrow> string" where
  "left_label rcols c = (if c \<in> set rcols then c @ ''_x'' else c)"

definition right_label :: "string list \<Rightarrow> string \<Rightarrow> string" where
  "right_label lcols c = (if c \<in> set lcols then c @ ''_y'' else c)"

definition joined_row :: "string list \<Rightarrow> string list \<Rightarrow> row \<Rightarrow> row option \<Rightarrow> row" where
  "joined_row lcols rcols l m =
     (\<lambda>n. case find (\<lambda>c. left_label rcols c = n) lcols of
             Some c \<Rightarrow> l c
           | None \<Rightarrow>
               (case find (\<lambda>c. right_label lcols c = n) rcols of
                  Some c \<Rightarrow> (case m of None \<Rightarrow> None | Some r \<Rightarrow> r c)
                | None \<Rightarrow> None))"

definition merge_left :: "string \<Rightarrow> frame \<Rightarrow> frame \<Rightarrow> exn + frame" where
  "merge_left pk left right =
     (if pk \<notin> set (columns left) \<or> pk \<notin> set (columns right) then Inl KeyError
      else
        (let lcols = columns left;
             rcols = removeAll pk (columns right);
             labels = map (left_label rcols) lcols @ map (right_label lcols) rcols
         in if \<not> distinct labels then Inl MergeError
            else Inr \<lparr>columns = labels,
                      rows = concat (map (\<lambda>l. case filter (\<lambda>r. r pk = l pk) (rows right) of
                                                  [] \<Rightarrow> [joined_row lcols rcols l None]
                                                | ms \<Rightarrow> map (\<lambda>r. joined_row lcols rcols l (Some r)) ms)
                                         (rows left))\<rparr>))"

text \<open>\<open>df[cols]\<close> with a list of labels: \<open>KeyError\<close> when one is missing.\<close>

definition select_columns :: "string list \<Rightarrow> frame \<Rightarrow> exn + frame" where
  "select_columns cs df =
     (if list_all (\<lambda>c. c \<in> set (columns df)) cs
      then Inr \<lparr>columns = cs, rows = map (restrict_row cs) (rows df)\<rparr>
      else Inl KeyError)"

text \<open>
  From the two keyed frames to the returned frame: the review loop (skipped when the
  column map has no \<open>review_cols\<close>, the lookup being inside the \<open>try\<close>), the left merge,
  and the restriction to \<open>self.column_map['all_cols']\<close>.
\<close>

definition reconcile ::
  "string \<Rightarrow> string list option \<Rightarrow> string list option \<Rightarrow> frame \<Rightarrow> frame \<Rightarrow> exn + frame" where
  "reconcile pk review_cols all_cols primary_stat_df df_concat =
     (case (case review_cols of
              None \<Rightarrow> (primary_stat_df, df_concat)
            | Some cols \<Rightarrow> review_loop pk cols primary_stat_df df_concat) of
        (p, c) \<Rightarrow>
          (case merge_left pk (reset_index pk p) (reset_index pk c) of
             Inl e \<Rightarrow> Inl e
           | Inr m \<Rightarrow>
               (case all_cols of
                  None \<Rightarrow> Inl KeyError
                | Some cs \<Rightarrow> select_columns cs m)))"

text \<open>
  \<open>concat_clean_save_all_match_stats\<close>: \<open>self.stats[0]\<close> is the primary statistic. With
  no secondary statistic \<open>df_concat\<close> is never bound. The result is written as the
  batch file and returned.
\<close>

definition concat_clean_save_all_match_stats ::
  "(string \<Rightarrow> frame \<Rightarrow> frame \<Rightarrow> exn + frame) \<Rightarrow> string \<Rightarrow> string \<Rightarrow> string list
     \<Rightarrow> string list option \<Rightarrow> string list option \<Rightarrow> string option \<Rightarrow> world
     \<Rightarrow> (exn + frame) \<times> world" where
  "concat_clean_save_all_match_stats outer name pk stats review_cols all_cols update_id w =
     (case stats of
        [] \<Rightarrow> (Inl IndexError, w)
      | primary_stat # others \<Rightarrow>
          (case load_stats name update_id stats w of
             Inl e \<Rightarrow> (Inl e, w)
           | Inr [] \<Rightarrow> (Inl IndexError, w)
           | Inr (primary_df # secondary) \<Rightarrow>
               (case (case secondary of
                        [] \<Rightarrow> Inl UnboundLocalError
                      | df0 # later \<Rightarrow> merge_secondary outer pk df0 later) of
                  Inl e \<Rightarrow> (Inl e, w)
                | Inr merged \<Rightarrow>
                    (case keyed pk merged of
                       Inl e \<Rightarrow> (Inl e, w)
                     | Inr df_concat \<Rightarrow>
                         (case keyed pk primary_df of
                            Inl e \<Rightarrow> (Inl e, w)
                          | Inr primary_stat_df \<Rightarrow>
                              (case reconcile pk review_cols all_cols primary_stat_df df_concat of
                                 Inl e \<Rightarrow> (Inl e, w)
                               | Inr out \<Rightarrow>
                                   (Inr out,
                                    snd (save_data (Some out) (clean_path name update_id) w))))))))"

text \<open>\<open>str.endswith\<close>.\<close>

definition ends_with :: "string \<Rightarrow> string \<Rightarrow> bool" where
  "ends_with suffix s =
     (length suffix \<le> length s \<and> drop (length s - length suffix) s = suffix)"

section \<open>Concrete inputs\<close>

text \<open>The upsert example of the spec: production row X with v = 1, new row X with v = 2.\<close>

definition production_X1 :: frame where
  "production_X1 =
     \<lparr>columns = [''pk'', ''v''], rows = [record_of [(''pk'', Str ''X''), (''v'', Num 1)]]\<rparr>"

definition batch_X2 :: frame where
  "batch_X2 =
     \<lparr>columns = [''pk'', ''v''], rows = [record_of [(''pk'', Str ''X''), (''v'', Num 2)]]\<rparr>"

definition batch_Y2 :: frame where
  "batch_Y2 =
     \<lparr>columns = [''pk'', ''v''], rows = [record_of [(''pk'', Str ''Y''), (''v'', Num 2)]]\<rparr>"

text \<open>
  A seasons step: the production CSV and the database table hold season 2023, the batch
  that \<open>clean_data\<close> returns holds 2023 and 2024, the index entry lists 2023, and the
  operator answers yes twice.
\<close>

definition seasons_old :: frame where
  "seasons_old = \<lparr>columns = [''season''], rows = [record_of [(''season'', Str ''2023'')]]\<rparr>"

definition seasons_batch :: frame where
  "seasons_batch =
     \<lparr>columns = [''season''],
      rows = [record_of [(''season'', Str ''2023'')], record_of [(''season'', Str ''2024'')]]\<rparr>"

definition files0 :: "string \<rightharpoonup> frame" where
  "files0 =
     (\<lambda>p. if p = table_path ''seasons'' then Some seasons_old
          else if p \<in> set (map table_path valid_entity_names) then Some \<lparr>columns = [], rows = []\<rparr>
          else None)"

definition world0 :: world where
  "world0 =
     \<lparr>files = files0,
      store = [''seasons'' \<mapsto> seasons_old],
      db_dict = [''seasons'' \<mapsto> \<lparr>update_date = ''2024-04-30'', ids = [Some (Str ''2023'')]\<rparr>],
      answers = [''yes'', ''yes''],
      errors = []\<rparr>"

text \<open>The same world with an operator who answers no at the first prompt.\<close>

definition world_cancel :: world where
  "world_cancel = world0\<lparr>answers := [''no'']\<rparr>"

text \<open>The same world once the batch file of update \<open>u1\<close> has been written.\<close>

definition world_batch :: world where
  "world_batch = world0\<lparr>files := files0(clean_path ''seasons'' (Some ''u1'') \<mapsto> seasons_batch)\<rparr>"

text \<open>A database that accepts every read and write, and one that refuses every write.\<close>

definition env0 :: env where
  "env0 = \<lparr>re_findall = (\<lambda>line. []), to_Int64 = (\<lambda>v. v), load_error = (\<lambda>t. None),
            commit_error = (\<lambda>t chunk. None)\<rparr>"

definition env_store_down :: env where
  "env_store_down = env0\<lparr>commit_error := (\<lambda>t chunk. Some SqliteError)\<rparr>"

definition seasons_query :: string where
  "seasons_query = ''CREATE TABLE IF NOT EXISTS seasons ('' @ [CHR 0x0A] @
                   ''season TEXT PRIMARY KEY'' @ [CHR 0x0A] @ '');''"

text \<open>
  An interpreter for the step functions: \<open>update_seasons\<close> is the model above, run for
  update \<open>u1\<close>; the other steps are taken to return at once.
\<close>

definition call_seasons :: "env \<Rightarrow> step_fn \<Rightarrow> world \<Rightarrow> (exn + unit) \<times> world" where
  "call_seasons ev func =
     (case func of
        Update_seasons \<Rightarrow>
          update_seasons ev (Some seasons_query) ''season'' (Inr (Some seasons_batch))
            ''u1'' ''2024-07-01''
      | _ \<Rightarrow> (\<lambda>w. (Inr (), w)))"

text \<open>
  A matches batch whose only row names a team the index does not know. The query, joined
  from its lines, declares the foreign key; the stand-in for \<open>re.findall\<close> returns the
  column name for a line that holds the declaration.
\<close>

definition matches_query :: string where
  "matches_query = ''CREATE TABLE IF NOT EXISTS matches ('' @ [CHR 0x0A] @
                   ''match_id TEXT PRIMARY KEY,'' @ [CHR 0x0A] @
                   ''tid TEXT,'' @ [CHR 0x0A] @
                   ''FOREIGN KEY (tid) REFERENCES teams(tid)'' @ [CHR 0x0A] @ '');''"

definition matches_batch :: frame where
  "matches_batch =
     \<lparr>columns = [''match_id'', ''tid''],
      rows = [record_of [(''match_id'', Str ''m1''), (''tid'', Str ''t_unknown'')]]\<rparr>"

definition world_fk :: world where
  "world_fk =
     \<lparr>files = Map.empty,
      store = [''matches'' \<mapsto> \<lparr>columns = [''match_id'', ''tid''], rows = []\<rparr>],
      db_dict = [''teams'' \<mapsto> \<lparr>update_date = ''2024-04-30'', ids = [Some (Str ''t_known'')]\<rparr>,
                 ''tid'' \<mapsto> \<lparr>update_date = ''2024-04-30'', ids = [Some (Str ''t_known'')]\<rparr>,
                 ''matches'' \<mapsto> \<lparr>update_date = ''2024-04-30'', ids = []\<rparr>],
      answers = [],
      errors = []\<rparr>"

definition env_fk :: env where
  "env_fk = env0\<lparr>re_findall := (\<lambda>line. if contains ''FOREIGN KEY'' line then [''tid''] else [])\<rparr>"

text \<open>
  A player-matches batch: one summary row with no minutes and one goal, one passing row
  for the same player and match with 90 minutes, nine goals and ten passes. Minutes and
  goals are review columns.
\<close>

definition summary_df :: frame where
  "summary_df =
     \<lparr>columns = [''player_match'', ''minutes'', ''goals''],
      rows = [record_of [(''player_match'', Str ''p1_m1''), (''goals'', Num 1)]]\<rparr>"

definition passing_df :: frame where
  "passing_df =
     \<lparr>columns = [''player_match'', ''minutes'', ''goals'', ''passes''],
      rows = [record_of [(''player_match'', Str ''p1_m1''), (''minutes'', Num 90),
                         (''goals'', Num 9), (''passes'', Num 10)]]\<rparr>"

definition world_stats :: world where
  "world_stats =
     \<lparr>files = [temp_path ''player_matches'' ''summary'' (Some ''u1'') \<mapsto> summary_df,
               temp_path ''player_matches'' ''passing'' (Some ''u1'') \<mapsto> passing_df],
      store = Map.empty, db_dict = Map.empty, answers = [], errors = []\<rparr>"

text \<open>
  A batch whose tables both have columns \<open>a\<close> and \<open>a_x\<close>, with a review list
  whose first column the secondary table does not have.
\<close>

definition summary_ax :: frame where
  "summary_ax =
     \<lparr>columns = [''player_match'', ''zz'', ''a'', ''a_x''],
      rows = [record_of [(''player_match'', Str ''p1_m1''), (''zz'', Num 1), (''a'', Num 7),
                         (''a_x'', Num 5)]]\<rparr>"

definition passing_ax :: frame where
  "passing_ax =
     \<lparr>columns = [''player_match'', ''a'', ''a_x''],
      rows = [record_of [(''player_match'', Str ''p1_m1''), (''a'', Num 8), (''a_x'', Num 9)]]\<rparr>"

definition world_ax :: world where
  "world_ax =
     \<lparr>files = [temp_path ''player_matches'' ''summary'' (Some ''u1'') \<mapsto> summary_ax,
               temp_path ''player_matches'' ''passing'' (Some ''u1'') \<mapsto> passing_ax],
      store = Map.empty, db_dict = Map.empty, answers = [], errors = []\<rparr>"

text \<open>An outer merge that is never reached when there is one secondary table.\<close>

definition no_outer :: "string \<Rightarrow> frame \<Rightarrow> frame \<Rightarrow> exn + frame" where
  "no_outer pk a b = Inl MergeError"

section \<open>Properties of the workflow controller\<close>

lemma started_run_steps: "started (fst (run_steps call st w)) = map fst st"
proof (induction st arbitrary: w)
  case Nil
  show ?case by simp
next
  case (Cons p st)
  obtain name f where p: "p = (name, f)" by (cases p)
  obtain r w' where c: "call f w = (r, w')" by (cases "call f w")
  obtain evs w'' where t: "run_steps call st w' = (evs, w'')" by (cases "run_steps call st w'")
  have "started evs = map fst st" using Cons.IH [of w'] t by simp
  then show ?case using p c t by (cases r) simp_all
qed

text \<open>
  The world after a run is the world threaded through the step functions of the list,
  each applied once, in the order of the list, whether or not it raised.
\<close>

lemma run_steps_world:
  "snd (run_steps call st w) = foldl (\<lambda>w' func. snd (call func w')) w (map snd st)"
proof (induction st arbitrary: w)
  case Nil
  show ?case by simp
next
  case (Cons p st)
  obtain name f where p: "p = (name, f)" by (cases p)
  obtain r w' where c: "call f w = (r, w')" by (cases "call f w")
  obtain evs w'' where t: "run_steps call st w' = (evs, w'')" by (cases "run_steps call st w'")
  have "w'' = foldl (\<lambda>w' func. snd (call func w')) w' (map snd st)"
    using Cons.IH [of w'] t by simp
  then show ?case using p c t by (cases r) simp_all
qed

lemma first_index_None: "s \<notin> fst ` set st \<Longrightarrow> first_index st s i = None"
  by (induction st arbitrary: i) auto

lemma record_call_run:
  "run_steps record_call steps [] =
     ([Starting ''seasons'', Completed ''seasons'',
       Starting ''ls'', Completed ''ls'',
       Starting ''tls'', ErrorIn ''tls'' KeyError,
       Starting ''teams'', Completed ''teams'',
       Starting ''ptls'', Completed ''ptls'',
       Starting ''players'', Completed ''players'',
       Starting ''matches'', Completed ''matches'',
       Starting ''team_matches'', Completed ''team_matches'',
       Starting ''player_matches'', Completed ''player_matches'',
       Starting ''keeper_matches'', Completed ''keeper_matches''],
      [Update_seasons, Update_ls, Update_tls, Update_teams, Update_ptls, Update_players,
       Update_matches, Update_team_matches, Update_player_matches, Update_keeper_matches])"
  by (simp add: steps_def record_call_def)

text \<open>
  C9, as stated, fails. The claim lists eleven steps with a leagues step in second
  place: the controller's list has ten entries and none is named leagues. And not every
  parent comes before its child: the key of a team-league-season is built from the key
  of a team, and the tls step is third while the teams step is fourth; the key of a
  player-team-league-season is built from the key of a player, and the ptls step is
  fifth while the players step is sixth.
\<close>

theorem steps_order_counterexample:
  "map fst steps \<noteq>
     [''seasons'', ''leagues'', ''ls'', ''tls'', ''teams'', ''ptls'', ''players'', ''matches'',
      ''team_matches'', ''player_matches'', ''keeper_matches'']
   \<and> ''leagues'' \<notin> set (map fst steps) \<and> length steps = 10
   \<and> (''tls'', ''teams'') \<in> set key_parents
   \<and> first_index steps ''tls'' 0 = Some 2 \<and> first_index steps ''teams'' 0 = Some 3
   \<and> (''ptls'', ''players'') \<in> set key_parents
   \<and> first_index steps ''ptls'' 0 = Some 4 \<and> first_index steps ''players'' 0 = Some 5"
  by (simp add: steps_def key_parents_def)

text \<open>
  C9, amended: a run from the beginning starts one step per entry of the controller's
  list, in exactly the order seasons, ls, tls, teams, ptls, players, matches,
  team_matches, player_matches, keeper_matches, and applies the ten step functions once
  each in that order, the world left by one being the world the next is given, whatever
  they do and whether or not earlier ones raise; with the recording step functions the
  log and the record of calls are as listed. Every parent's step comes before its
  child's step, except that leagues has no step, tls comes before teams and ptls before
  players.
\<close>

theorem run_workflow_fixed_order:
  "started (fst (run_workflow call None w)) =
     [''seasons'', ''ls'', ''tls'', ''teams'', ''ptls'', ''players'', ''matches'',
      ''team_matches'', ''player_matches'', ''keeper_matches'']
   \<and> snd (run_workflow call None w) =
       foldl (\<lambda>w' func. snd (call func w')) w
         [Update_seasons, Update_ls, Update_tls, Update_teams, Update_ptls, Update_players,
          Update_matches, Update_team_matches, Update_player_matches, Update_keeper_matches]
   \<and> run_workflow record_call None [] =
       ([Starting ''seasons'', Completed ''seasons'',
         Starting ''ls'', Completed ''ls'',
         Starting ''tls'', ErrorIn ''tls'' KeyError,
         Starting ''teams'', Completed ''teams'',
         Starting ''ptls'', Completed ''ptls'',
         Starting ''players'', Completed ''players'',
         Starting ''matches'', Completed ''matches'',
         Starting ''team_matches'', Completed ''team_matches'',
         Starting ''player_matches'', Completed ''player_matches'',
         Starting ''keeper_matches'', Completed ''keeper_matches''],
        [Update_seasons, Update_ls, Update_tls, Update_teams, Update_ptls, Update_players,
         Update_matches, Update_team_matches, Update_player_matches, Update_keeper_matches])
   \<and> filter (\<lambda>p. \<not> scheduled_before (snd p) (fst p)) key_parents =
       [(''ls'', ''leagues''), (''tls'', ''teams''), (''ptls'', ''players'')]"
proof -
  have n: "run_workflow call None w = run_steps call steps w"
    by (simp add: run_workflow_def start_index_def)
  have d: "run_workflow record_call None [] = run_steps record_call steps []"
    by (simp add: run_workflow_def start_index_def)
  have a: "started (fst (run_workflow call None w)) =
     [''seasons'', ''ls'', ''tls'', ''teams'', ''ptls'', ''players'', ''matches'',
      ''team_matches'', ''player_matches'', ''keeper_matches'']"
    unfolding n started_run_steps by (simp add: steps_def)
  have b: "snd (run_workflow call None w) =
       foldl (\<lambda>w' func. snd (call func w')) w
         [Update_seasons, Update_ls, Update_tls, Update_teams, Update_ptls, Update_players,
          Update_matches, Update_team_matches, Update_player_matches, Update_keeper_matches]"
    unfolding n run_steps_world by (simp add: steps_def)
  have c: "filter (\<lambda>p. \<not> scheduled_before (snd p) (fst p)) key_parents =
       [(''ls'', ''leagues''), (''tls'', ''teams''), (''ptls'', ''players'')]"
    by (simp add: key_parents_def scheduled_before_def steps_def)
  show ?thesis using a b c by (simp add: d record_call_run)
qed

text \<open>
  C10: a \<open>start_from\<close> that names no step gives start index 0, and the run is the run
  from the first step: every step of the list is started, in order, and every step
  function of the list is applied, in order, to the world the one before it left.
\<close>

theorem run_workflow_unknown_start:
  assumes "s \<notin> fst ` set steps"
  shows "start_index steps (Some s) = 0
       \<and> run_workflow call (Some s) w = run_workflow call None w
       \<and> started (fst (run_workflow call (Some s) w)) = map fst steps
       \<and> snd (run_workflow call (Some s) w) =
           foldl (\<lambda>w' func. snd (call func w')) w (map snd steps)
       \<and> run_workflow call (Some s) w = run_steps call steps w"
proof -
  have i: "start_index steps (Some s) = 0"
    using assms by (simp add: start_index_def first_index_None)
  have n: "start_index steps None = 0" by (simp add: start_index_def)
  show ?thesis using i n by (simp add: run_workflow_def started_run_steps run_steps_world)
qed

text \<open>
  C10 at a concrete input: \<open>leagues\<close> is a valid entity name but not a step name. With
  the recording step functions, the run logs all ten steps, the tls step as failed and
  the others as completed, and all ten functions have been called, in the order of the
  list.
\<close>

theorem run_workflow_unknown_start_witness:
  "''leagues'' \<notin> fst ` set steps
   \<and> start_index steps (Some ''leagues'') = 0
   \<and> run_workflow record_call (Some ''leagues'') [] =
       ([Starting ''seasons'', Completed ''seasons'',
         Starting ''ls'', Completed ''ls'',
         Starting ''tls'', ErrorIn ''tls'' KeyError,
         Starting ''teams'', Completed ''teams'',
         Starting ''ptls'', Completed ''ptls'',
         Starting ''players'', Completed ''players'',
         Starting ''matches'', Completed ''matches'',
         Starting ''team_matches'', Completed ''team_matches'',
         Starting ''player_matches'', Completed ''player_matches'',
         Starting ''keeper_matches'', Completed ''keeper_matches''],
        [Update_seasons, Update_ls, Update_tls, Update_teams, Update_ptls, Update_players,
         Update_matches, Update_team_matches, Update_player_matches, Update_keeper_matches])
   \<and> snd (run_workflow record_call (Some ''leagues'') []) = map snd steps"
proof -
  have h: "''leagues'' \<notin> fst ` set steps" by (simp add: steps_def)
  have t: "start_index steps (Some ''leagues'') = 0
       \<and> run_workflow record_call (Some ''leagues'') [] = run_steps record_call steps []"
    using run_workflow_unknown_start [OF h, of record_call "[]"] by blast
  have m: "snd (run_steps record_call steps []) = map snd steps"
    by (simp add: record_call_run) (simp add: steps_def)
  show ?thesis using h t m by (simp add: record_call_run)
qed

section \<open>Properties of composite keys\<close>

lemma starts_with_append: "starts_with p (p @ t)"
  by (simp add: starts_with_def)

text \<open>
  When the two orders give the same string and the identifiers differ, the longer
  identifier is the shorter one followed by the separator and more.
\<close>

lemma swap_equal_prefix:
  assumes "a @ ''_'' @ b = b @ ''_'' @ a" and "a \<noteq> b"
  shows "starts_with (a @ ''_'') b \<or> starts_with (b @ ''_'') a"
proof -
  from assms(1) obtain us where
    "(a = b @ us \<and> us @ ''_'' @ b = ''_'' @ a) \<or> (a @ us = b \<and> ''_'' @ b = us @ ''_'' @ a)"
    by (auto simp: append_eq_append_conv2)
  then show ?thesis
  proof
    assume h: "a = b @ us \<and> us @ ''_'' @ b = ''_'' @ a"
    then have "us \<noteq> []" using assms(2) by auto
    then obtain c t where us: "us = c # t" by (cases us) auto
    with h have "c = CHR ''_''" by simp
    with h us have "a = (b @ ''_'') @ t" by simp
    then show ?thesis using starts_with_append [of "b @ ''_''" t] by simp
  next
    assume h: "a @ us = b \<and> ''_'' @ b = us @ ''_'' @ a"
    then have "us \<noteq> []" using assms(2) by auto
    then obtain c t where us: "us = c # t" by (cases us) auto
    with h have "c = CHR ''_''" by simp
    with h us have "b = (a @ ''_'') @ t" by auto
    then show ?thesis using starts_with_append [of "a @ ''_''" t] by simp
  qed
qed

text \<open>
  C8, as stated, fails: the identifiers \<open>x\<close> and \<open>x_x\<close> differ, and both orders give the
  key \<open>x_x_x\<close>.
\<close>

theorem derive_key_swap_counterexample:
  "''x'' \<noteq> ''x_x'' \<and> derive_key (Some ''x'') (Some ''x_x'') = derive_key (Some ''x_x'') (Some ''x'')"
  by (simp add: derive_key_def)

text \<open>
  C8, amended: the key of two non-null identifiers is the first, the separator, the
  second (a function of the ordered pair), and swapping two different identifiers changes
  the key unless one of them is the other followed by the separator and more.
\<close>

theorem derive_key_order_sensitive:
  assumes "a \<noteq> b"
    and "\<not> starts_with (a @ ''_'') b"
    and "\<not> starts_with (b @ ''_'') a"
  shows "derive_key (Some a) (Some b) = Some (a @ ''_'' @ b)
       \<and> derive_key (Some a) (Some b) \<noteq> derive_key (Some b) (Some a)"
proof -
  have "a @ ''_'' @ b \<noteq> b @ ''_'' @ a"
    using swap_equal_prefix [of a b] assms by blast
  then show ?thesis by (simp add: derive_key_def)
qed

text \<open>
  C8, amended, at a team id and a league-season id, the constituents of a
  team-league-season key; the second contains the separator.
\<close>

theorem derive_key_order_sensitive_witness:
  "''18bb7c10'' \<noteq> ''9_2023''
   \<and> \<not> starts_with (''18bb7c10'' @ ''_'') ''9_2023''
   \<and> \<not> starts_with (''9_2023'' @ ''_'') ''18bb7c10''
   \<and> derive_key (Some ''18bb7c10'') (Some ''9_2023'') = Some ''18bb7c10_9_2023''
   \<and> derive_key (Some ''18bb7c10'') (Some ''9_2023'') \<noteq> derive_key (Some ''9_2023'') (Some ''18bb7c10'')"
proof -
  have h1: "''18bb7c10'' \<noteq> ''9_2023''" by simp
  have h2: "\<not> starts_with (''18bb7c10'' @ ''_'') ''9_2023''" by (simp add: starts_with_def)
  have h3: "\<not> starts_with (''9_2023'' @ ''_'') ''18bb7c10''" by (simp add: starts_with_def)
  show ?thesis using h1 h2 h3 derive_key_order_sensitive [OF h1 h2 h3] by auto
qed

section \<open>Properties of the upsert\<close>

lemma restrict_row_apply: "restrict_row cs r c = (if c \<in> set cs then r c else None)"
  by (simp add: restrict_row_def)

lemma restrict_row_idem: "set cs \<subseteq> set ds \<Longrightarrow> restrict_row ds (restrict_row cs r) = restrict_row cs r"
  by (auto simp: restrict_row_def fun_eq_iff)

lemma keep_first_append:
  "keep_first c S (xs @ ys) = keep_first c S xs @ keep_first c (S \<union> (\<lambda>r. r c) ` set xs) ys"
  by (induction xs arbitrary: S) (auto simp: insert_absorb)

lemma keep_first_subset: "set (keep_first c S xs) \<subseteq> set xs"
  by (induction xs arbitrary: S) auto

lemma keep_first_keys: "(\<lambda>r. r c) ` set (keep_first c S xs) = (\<lambda>r. r c) ` set xs - S"
  by (induction xs arbitrary: S) auto

lemma keep_first_seen: "(\<lambda>r. r c) ` set xs \<subseteq> S \<Longrightarrow> keep_first c S xs = []"
  by (induction xs arbitrary: S) auto

lemma keep_first_idem: "keep_first c S (keep_first c S xs) = keep_first c S xs"
proof (induction xs arbitrary: S)
  case Nil
  show ?case by simp
next
  case (Cons r rs)
  show ?case
  proof (cases "r c \<in> S")
    case True
    then show ?thesis using Cons.IH by simp
  next
    case False
    have "keep_first c (insert (r c) S) (keep_first c (insert (r c) S) rs) = keep_first c (insert (r c) S) rs"
      by (rule Cons.IH)
    then show ?thesis using False by simp
  qed
qed

lemma keep_first_distinct: "distinct (map (\<lambda>r. r c) (keep_first c S xs))"
proof (induction xs arbitrary: S)
  case Nil
  show ?case by simp
next
  case (Cons r rs)
  have "r c \<notin> (\<lambda>r. r c) ` set (keep_first c (insert (r c) S) rs)"
    by (simp add: keep_first_keys)
  then show ?case using Cons.IH by auto
qed

lemma find_keep_first:
  "find (\<lambda>r. r c = k) (keep_first c S xs) = (if k \<in> S then None else find (\<lambda>r. r c = k) xs)"
  by (induction xs arbitrary: S) auto

lemma find_filter_key:
  "P k \<Longrightarrow> find (\<lambda>r. r c = k) (filter (\<lambda>r. P (r c)) xs) = find (\<lambda>r. r c = k) xs"
  by (induction xs) auto

lemma find_filter_key_None:
  "\<not> P k \<Longrightarrow> find (\<lambda>r. r c = k) (filter (\<lambda>r. P (r c)) xs) = None"
  by (induction xs) auto

lemma find_append:
  "find P (xs @ ys) = (case find P xs of Some r \<Rightarrow> Some r | None \<Rightarrow> find P ys)"
  by (induction xs) auto

lemma find_None_keys: "find (\<lambda>r. r c = k) xs = None \<longleftrightarrow> k \<notin> (\<lambda>r. r c) ` set xs"
  by (induction xs) auto

lemma with_key_append: "with_key c (xs @ ys) = with_key c xs @ with_key c ys" by (simp add: with_key_def)

lemma with_key_keys: "(\<lambda>r. r c) ` set (with_key c xs) = (\<lambda>r. r c) ` set xs - {None}"
  by (auto simp: with_key_def)

lemma with_key_id: "None \<notin> (\<lambda>r. r c) ` set xs \<Longrightarrow> with_key c xs = xs"
  unfolding with_key_def by (induction xs) auto

text \<open>A second pass over the result and the same batch, without replacement.\<close>
lemma second_pass:
  assumes "R = keep_first c {} (with_key c (A @ B))"
  shows "keep_first c {} (with_key c (R @ B)) = R"
proof -
  have k: "(\<lambda>r. r c) ` set R = (\<lambda>r. r c) ` set (A @ B) - {None}"
    using assms by (simp add: keep_first_keys with_key_keys)
  then have "None \<notin> (\<lambda>r. r c) ` set R" by blast
  then have 1: "with_key c R = R" by (rule with_key_id)
  have 2: "keep_first c {} R = R" using assms by (simp add: keep_first_idem)
  have "(\<lambda>r. r c) ` set (with_key c B) \<subseteq> {} \<union> (\<lambda>r. r c) ` set R"
    using k by (auto simp: with_key_keys)
  then have 3: "keep_first c ({} \<union> (\<lambda>r. r c) ` set R) (with_key c B) = []"
    by (rule keep_first_seen)
  show ?thesis using 1 2 3 by (simp only: with_key_append keep_first_append append_Nil2)
qed

text \<open>A second pass over the result and the same batch, with replacement.\<close>
lemma with_key_subset: "set (with_key c xs) \<subseteq> set xs" by (auto simp: with_key_def)

lemma second_pass_replace:
  assumes R: "R = keep_first c {} (with_key c (filter (\<lambda>r. r c \<notin> K) A @ B))"
    and K: "(\<lambda>r. r c) ` set B = K"
  shows "keep_first c {} (with_key c (filter (\<lambda>r. r c \<notin> K) R @ B)) = R"
proof -
  define A' where "A' = with_key c (filter (\<lambda>r. r c \<notin> K) A)"
  define S where "S = {} \<union> (\<lambda>r. r c) ` set A'"
  define R1 where "R1 = keep_first c {} A'"
  define R2 where "R2 = keep_first c S (with_key c B)"
  have split: "R = R1 @ R2"
    unfolding R R1_def R2_def S_def A'_def by (simp only: with_key_append keep_first_append)
  have "set R1 \<subseteq> set A'" unfolding R1_def by (rule keep_first_subset)
  moreover have "set A' \<subseteq> set (filter (\<lambda>r. r c \<notin> K) A)" unfolding A'_def by (rule with_key_subset)
  ultimately have a1: "\<forall>r \<in> set R1. r c \<notin> K" by auto
  have f1: "filter (\<lambda>r. r c \<notin> K) R1 = R1" using a1 by (rule filter_True)
  have "set R2 \<subseteq> set (with_key c B)" unfolding R2_def by (rule keep_first_subset)
  moreover have "set (with_key c B) \<subseteq> set B" by (rule with_key_subset)
  ultimately have a2: "\<forall>r \<in> set R2. \<not> r c \<notin> K" using K by auto
  have f2: "filter (\<lambda>r. r c \<notin> K) R2 = []" using a2 by (rule filter_False)
  have f: "filter (\<lambda>r. r c \<notin> K) R = R1" unfolding split using f1 f2 by simp
  have k1: "(\<lambda>r. r c) ` set R1 = (\<lambda>r. r c) ` set A'" unfolding R1_def by (simp add: keep_first_keys)
  have "None \<notin> (\<lambda>r. r c) ` set A'" unfolding A'_def by (simp add: with_key_keys)
  then have "None \<notin> (\<lambda>r. r c) ` set R1" using k1 by simp
  then have n1: "with_key c R1 = R1" by (rule with_key_id)
  have i1: "keep_first c {} R1 = R1" unfolding R1_def by (rule keep_first_idem)
  have "keep_first c {} (with_key c (R1 @ B)) = keep_first c {} (with_key c R1) @ keep_first c ({} \<union> (\<lambda>r. r c) ` set (with_key c R1)) (with_key c B)"
    by (simp only: with_key_append keep_first_append)
  also have "\<dots> = R1 @ R2" unfolding n1 i1 k1 R2_def S_def by (rule refl)
  finally have "keep_first c {} (with_key c (R1 @ B)) = R" using split by simp
  then show ?thesis unfolding f .
qed

lemma visible_key: "c \<in> set (columns df) \<Longrightarrow> map (\<lambda>r. r c) (visible df) = map (\<lambda>r. r c) (rows df)"
  by (simp add: visible_def restrict_row_apply)

lemma concat_visible: "rows (concat_frames a b) = visible a @ visible b"
  by (simp add: concat_frames_def visible_def)

lemma restrict_map_id:
  assumes "\<forall>r \<in> set xs. restrict_row cs r = r"
  shows "map (restrict_row cs) xs = xs"
  using assms by (induction xs) auto

lemma new_table_False:
  "new_table pk T (Some N) False =
     (if pk \<in> set (columns T) \<union> set (columns N)
      then Inr \<lparr>columns = columns T @ filter (\<lambda>c. c \<notin> set (columns T)) (columns N),
                rows = keep_first pk {} (with_key pk (visible T @ visible N))\<rparr>
      else Inl KeyError)"
  by (auto simp: new_table_def dropna_def drop_duplicates_def concat_frames_def visible_def with_key_def)

lemma visible_filter_key:
  "c \<in> set (columns df) \<Longrightarrow>
   visible (df\<lparr>rows := filter (\<lambda>r. P (r c)) (rows df)\<rparr>) = filter (\<lambda>r. P (r c)) (visible df)"
  by (simp add: visible_def filter_map comp_def restrict_row_apply)

lemma new_table_True:
  "new_table pk T (Some N) True =
     (if pk \<in> set (columns T) \<and> pk \<in> set (columns N)
      then Inr \<lparr>columns = columns T @ filter (\<lambda>c. c \<notin> set (columns T)) (columns N),
                rows = keep_first pk {}
                  (with_key pk (filter (\<lambda>r. r pk \<notin> (\<lambda>r. r pk) ` set (rows N)) (visible T) @ visible N))\<rparr>
      else Inl KeyError)"
proof (cases "pk \<in> set (columns T) \<and> pk \<in> set (columns N)")
  case False
  then show ?thesis by (auto simp: new_table_def not_isin_def column_def)
next
  case True
  then have "not_isin pk T (Some N) =
      Inr (T\<lparr>rows := filter (\<lambda>r. r pk \<notin> (\<lambda>r. r pk) ` set (rows N)) (rows T)\<rparr>)"
    by (simp add: not_isin_def column_def)
  moreover have "rows (concat_frames (T\<lparr>rows := filter (\<lambda>r. r pk \<notin> (\<lambda>r. r pk) ` set (rows N)) (rows T)\<rparr>) N)
      = filter (\<lambda>r. r pk \<notin> (\<lambda>r. r pk) ` set (rows N)) (visible T) @ visible N"
    using True visible_filter_key [of pk T "\<lambda>k. k \<notin> (\<lambda>r. r pk) ` set (rows N)"]
    by (simp add: concat_visible)
  moreover have "columns (concat_frames (T\<lparr>rows := filter (\<lambda>r. r pk \<notin> (\<lambda>r. r pk) ` set (rows N)) (rows T)\<rparr>) N)
      = columns T @ filter (\<lambda>c. c \<notin> set (columns T)) (columns N)"
    by (simp add: concat_frames_def)
  ultimately show ?thesis using True
    by (simp add: new_table_def dropna_def drop_duplicates_def with_key_def)
qed

lemma new_table_None:
  "new_table pk T None rep =
     (if rep then (if pk \<in> set (columns T) then Inl TypeError else Inl KeyError)
      else if pk \<in> set (columns T) then Inr (T\<lparr>rows := keep_first pk {} (with_key pk (rows T))\<rparr>)
      else Inl KeyError)"
  by (simp add: new_table_def not_isin_def column_def dropna_def drop_duplicates_def with_key_def)

lemma visible_fixed:
  assumes "set (rows R) \<subseteq> set (visible T) \<union> set (visible N)"
    and "set (columns T) \<subseteq> set (columns R)" and "set (columns N) \<subseteq> set (columns R)"
  shows "visible R = rows R"
proof -
  have "\<forall>r \<in> set (rows R). restrict_row (columns R) r = r"
  proof
    fix r assume "r \<in> set (rows R)"
    then consider "r \<in> set (visible T)" | "r \<in> set (visible N)" using assms(1) by blast
    then show "restrict_row (columns R) r = r"
    proof cases
      case 1
      then obtain r0 where "r = restrict_row (columns T) r0" by (auto simp: visible_def)
      then show ?thesis using assms(2) by (simp add: restrict_row_idem)
    next
      case 2
      then obtain r0 where "r = restrict_row (columns N) r0" by (auto simp: visible_def)
      then show ?thesis using assms(3) by (simp add: restrict_row_idem)
    qed
  qed
  then show ?thesis unfolding visible_def by (rule restrict_map_id)
qed

lemma new_table_idempotent:
  assumes "new_table pk T new rep = Inr R"
  shows "new_table pk R new rep = Inr R"
proof (cases new)
  case None
  with assms have pk: "pk \<in> set (columns T)" and rep: "\<not> rep"
    and R: "R = T\<lparr>rows := keep_first pk {} (with_key pk (rows T))\<rparr>"
    by (auto simp: new_table_None split: if_splits)
  have "keep_first pk {} (with_key pk (rows R @ [])) = rows R"
    by (rule second_pass) (simp add: R)
  then show ?thesis using None pk rep R by (simp add: new_table_None)
next
  case (Some N)
  define C where "C = columns T @ filter (\<lambda>c. c \<notin> set (columns T)) (columns N)"
  have cT: "set (columns T) \<subseteq> set C" and cN: "set (columns N) \<subseteq> set C"
    by (auto simp: C_def)
  have absorb: "C @ filter (\<lambda>c. c \<notin> set C) (columns N) = C"
    using cN by (auto simp: filter_empty_conv)
  show ?thesis
  proof (cases rep)
    case False
    with assms Some have pk: "pk \<in> set (columns T) \<union> set (columns N)"
      and R: "R = \<lparr>columns = C, rows = keep_first pk {} (with_key pk (visible T @ visible N))\<rparr>"
      by (auto simp: new_table_False C_def split: if_splits)
    have "set (rows R) \<subseteq> set (visible T) \<union> set (visible N)"
      using keep_first_subset [of pk "{}" "with_key pk (visible T @ visible N)"]
            with_key_subset [of pk "visible T @ visible N"] by (auto simp: R)
    then have v: "visible R = rows R" using cT cN by (intro visible_fixed [of R T N]) (simp_all add: R)
    have "keep_first pk {} (with_key pk (rows R @ visible N)) = rows R"
      by (rule second_pass) (simp add: R)
    moreover have "pk \<in> set C" using pk cT cN by auto
    ultimately show ?thesis using Some False v absorb
      by (simp add: new_table_False R)
  next
    case True
    let ?K = "(\<lambda>r. r pk) ` set (rows N)"
    from True assms Some have pk: "pk \<in> set (columns T)" "pk \<in> set (columns N)"
      and R: "R = \<lparr>columns = C, rows = keep_first pk {} (with_key pk (filter (\<lambda>r. r pk \<notin> ?K) (visible T) @ visible N))\<rparr>"
      by (auto simp: new_table_True C_def split: if_splits)
    have "set (rows R) \<subseteq> set (visible T) \<union> set (visible N)"
      using keep_first_subset [of pk "{}" "with_key pk (filter (\<lambda>r. r pk \<notin> ?K) (visible T) @ visible N)"]
            with_key_subset [of pk "filter (\<lambda>r. r pk \<notin> ?K) (visible T) @ visible N"] by (auto simp: R)
    then have v: "visible R = rows R" using cT cN by (intro visible_fixed [of R T N]) (simp_all add: R)
    have K: "(\<lambda>r. r pk) ` set (visible N) = ?K"
      using visible_key [OF pk(2)] by (metis set_map)
    have "keep_first pk {} (with_key pk (filter (\<lambda>r. r pk \<notin> ?K) (rows R) @ visible N)) = rows R"
      by (rule second_pass_replace [OF _ K]) (simp add: R)
    moreover have "pk \<in> set C" using pk cT by auto
    ultimately show ?thesis using Some True pk v absorb
      by (simp add: new_table_True R)
  qed
qed

lemma update_table_fst: "fst (update_table name pk T new rep w) = new_table pk T new rep"
  by (simp add: update_table_def split: sum.splits)

lemma update_table_saved:
  "new_table pk T new rep = Inr R \<Longrightarrow>
   files (snd (update_table name pk T new rep w)) (table_path name) = Some R"
  by (simp add: update_table_def save_data_def)

text \<open>
  C7: when \<open>update_table\<close> returns a table, running it again on that table (the new
  production state) with the same batch and the same flag returns the same table, and
  saves that table as the production CSV again.
\<close>

theorem update_table_idempotent:
  assumes "fst (update_table name pk T new rep w) = Inr R"
  shows "fst (update_table name pk R new rep w') = Inr R
       \<and> files (snd (update_table name pk R new rep w')) (table_path name) = Some R"
proof -
  have "new_table pk T new rep = Inr R" using assms by (simp add: update_table_fst)
  then have "new_table pk R new rep = Inr R" by (rule new_table_idempotent)
  then show ?thesis by (simp add: update_table_fst update_table_saved)
qed

text \<open>C7 on the spec's example: production row X with v = 1, batch row X with v = 2.\<close>

theorem update_table_idempotent_witness:
  "fst (update_table ''teams'' ''pk'' production_X1 (Some batch_X2) False world0)
     = Inr \<lparr>columns = [''pk'', ''v''], rows = [restrict_row [''pk'', ''v''] (record_of [(''pk'', Str ''X''), (''v'', Num 1)])]\<rparr>
   \<and> fst (update_table ''teams'' ''pk''
            \<lparr>columns = [''pk'', ''v''], rows = [restrict_row [''pk'', ''v''] (record_of [(''pk'', Str ''X''), (''v'', Num 1)])]\<rparr>
            (Some batch_X2) False world0)
     = Inr \<lparr>columns = [''pk'', ''v''], rows = [restrict_row [''pk'', ''v''] (record_of [(''pk'', Str ''X''), (''v'', Num 1)])]\<rparr>"
proof -
  have h: "fst (update_table ''teams'' ''pk'' production_X1 (Some batch_X2) False world0)
     = Inr \<lparr>columns = [''pk'', ''v''], rows = [restrict_row [''pk'', ''v''] (record_of [(''pk'', Str ''X''), (''v'', Num 1)])]\<rparr>"
    by (simp add: update_table_fst new_table_def concat_frames_def dropna_def drop_duplicates_def
        restrict_row_apply production_X1_def batch_X2_def record_of_def)
  show ?thesis using h update_table_idempotent [OF h, of world0] by blast
qed

text \<open>
  C4, as stated, fails: on the claim's own example the code keeps v = 1, while the two
  row sets concatenated in new-then-existing order with the first occurrence kept give
  v = 2; and on a batch with another key the production row comes first in the result.
\<close>

theorem update_table_order_counterexample:
  "cells [''pk'', ''v''] (fst (update_table ''teams'' ''pk'' production_X1 (Some batch_X2) False world0))
     = Inr [[Some (Str ''X''), Some (Num 1)]]
   \<and> cells [''pk'', ''v''] (upsert_new_then_existing ''pk'' production_X1 batch_X2)
     = Inr [[Some (Str ''X''), Some (Num 2)]]
   \<and> cells [''pk'', ''v''] (fst (update_table ''teams'' ''pk'' production_X1 (Some batch_Y2) False world0))
     = Inr [[Some (Str ''X''), Some (Num 1)], [Some (Str ''Y''), Some (Num 2)]]"
  by (simp add: update_table_fst new_table_def column_def concat_frames_def dropna_def
      drop_duplicates_def upsert_new_then_existing_def cells_def restrict_row_apply record_of_def
      production_X1_def batch_X2_def batch_Y2_def)

text \<open>
  C4, amended: the result has no null key and no key twice, and for every key the row
  it holds is the first row with that key in the concatenation. Without replacement the
  concatenation is existing-then-new, so a production row wins over a new row with its
  key; with replacement the production rows whose key is in the batch are removed first,
  so the new row wins.
\<close>

theorem update_table_conflict_policy:
  assumes "fst (update_table name pk existing (Some new) replace_vals w) = Inr R"
    and "k \<noteq> None"
  shows "find (\<lambda>r. r pk = k) (rows R) =
           (if replace_vals
            then (case find (\<lambda>r. r pk = k) (visible new) of
                    Some r \<Rightarrow> Some r
                  | None \<Rightarrow> find (\<lambda>r. r pk = k) (visible existing))
            else (case find (\<lambda>r. r pk = k) (visible existing) of
                    Some r \<Rightarrow> Some r
                  | None \<Rightarrow> find (\<lambda>r. r pk = k) (visible new)))
       \<and> distinct (map (\<lambda>r. r pk) (rows R))
       \<and> None \<notin> set (map (\<lambda>r. r pk) (rows R))"
proof -
  have nt: "new_table pk existing (Some new) replace_vals = Inr R"
    using assms(1) by (simp add: update_table_fst)
  have nn: "\<And>xs. find (\<lambda>r. r pk = k) (with_key pk xs) = find (\<lambda>r. r pk = k) xs"
    unfolding with_key_def using assms(2) find_filter_key [of "\<lambda>k. k \<noteq> None" k pk] by simp
  show ?thesis
  proof (cases replace_vals)
    case False
    with nt have R: "rows R = keep_first pk {} (with_key pk (visible existing @ visible new))"
      by (auto simp: new_table_False split: if_splits)
    have "find (\<lambda>r. r pk = k) (rows R) = find (\<lambda>r. r pk = k) (visible existing @ visible new)"
      unfolding R by (simp add: find_keep_first nn)
    moreover have "distinct (map (\<lambda>r. r pk) (rows R))" unfolding R by (rule keep_first_distinct)
    moreover have "None \<notin> (\<lambda>r. r pk) ` set (rows R)"
      unfolding R by (simp add: keep_first_keys with_key_keys)
    ultimately show ?thesis using False by (simp add: find_append)
  next
    case True
    let ?K = "(\<lambda>r. r pk) ` set (rows new)"
    from True nt have pk: "pk \<in> set (columns new)"
      and R: "rows R = keep_first pk {}
                (with_key pk (filter (\<lambda>r. r pk \<notin> ?K) (visible existing) @ visible new))"
      by (auto simp: new_table_True split: if_splits)
    have K: "(\<lambda>r. r pk) ` set (visible new) = ?K"
      using visible_key [OF pk] by (metis set_map)
    have f: "find (\<lambda>r. r pk = k) (rows R) =
               (case find (\<lambda>r. r pk = k) (filter (\<lambda>r. r pk \<notin> ?K) (visible existing)) of
                  Some r \<Rightarrow> Some r
                | None \<Rightarrow> find (\<lambda>r. r pk = k) (visible new))"
      unfolding R by (simp add: find_keep_first nn find_append)
    have g: "find (\<lambda>r. r pk = k) (rows R) =
               (case find (\<lambda>r. r pk = k) (visible new) of
                  Some r \<Rightarrow> Some r
                | None \<Rightarrow> find (\<lambda>r. r pk = k) (visible existing))"
    proof (cases "k \<in> ?K")
      case True
      then have "find (\<lambda>r. r pk = k) (filter (\<lambda>r. r pk \<notin> ?K) (visible existing)) = None"
        using find_filter_key_None [of "\<lambda>k. k \<notin> ?K" k pk] by simp
      moreover have "find (\<lambda>r. r pk = k) (visible new) \<noteq> None"
        using True K by (simp add: find_None_keys)
      ultimately show ?thesis using f by (auto split: option.splits)
    next
      case False
      then have "find (\<lambda>r. r pk = k) (filter (\<lambda>r. r pk \<notin> ?K) (visible existing))
                   = find (\<lambda>r. r pk = k) (visible existing)"
        using find_filter_key [of "\<lambda>k. k \<notin> ?K" k pk] by simp
      moreover have "find (\<lambda>r. r pk = k) (visible new) = None"
        using False K by (simp add: find_None_keys)
      ultimately show ?thesis using f by (auto split: option.splits)
    qed
    have "distinct (map (\<lambda>r. r pk) (rows R))" unfolding R by (rule keep_first_distinct)
    moreover have "None \<notin> (\<lambda>r. r pk) ` set (rows R)"
      unfolding R by (simp add: keep_first_keys with_key_keys)
    ultimately show ?thesis using True g by simp
  qed
qed

text \<open>
  C4, amended, on the claim's example: with replacement the row found under key X has
  v = 2, without it v = 1.
\<close>

theorem update_table_conflict_policy_witness:
  "fst (update_table ''teams'' ''pk'' production_X1 (Some batch_X2) True world0)
     = Inr \<lparr>columns = [''pk'', ''v''], rows = [restrict_row [''pk'', ''v''] (record_of [(''pk'', Str ''X''), (''v'', Num 2)])]\<rparr>
   \<and> Some (Str ''X'') \<noteq> None
   \<and> find (\<lambda>r. r ''pk'' = Some (Str ''X''))
        [restrict_row [''pk'', ''v''] (record_of [(''pk'', Str ''X''), (''v'', Num 2)])]
     = find (\<lambda>r. r ''pk'' = Some (Str ''X'')) (visible batch_X2)
   \<and> map_option (\<lambda>r. r ''v'') (find (\<lambda>r. r ''pk'' = Some (Str ''X'')) (visible batch_X2))
     = Some (Some (Num 2))"
proof -
  have h: "fst (update_table ''teams'' ''pk'' production_X1 (Some batch_X2) True world0)
     = Inr \<lparr>columns = [''pk'', ''v''], rows = [restrict_row [''pk'', ''v''] (record_of [(''pk'', Str ''X''), (''v'', Num 2)])]\<rparr>"
    by (simp add: update_table_fst new_table_def not_isin_def column_def concat_frames_def
        dropna_def drop_duplicates_def restrict_row_apply production_X1_def batch_X2_def record_of_def)
  have k: "Some (Str ''X'') \<noteq> None" by simp
  have v: "find (\<lambda>r. r ''pk'' = Some (Str ''X'')) (visible batch_X2)
             = Some (restrict_row [''pk'', ''v''] (record_of [(''pk'', Str ''X''), (''v'', Num 2)]))"
    by (simp add: visible_def batch_X2_def restrict_row_apply record_of_def)
  have "find (\<lambda>r. r ''pk'' = Some (Str ''X''))
          [restrict_row [''pk'', ''v''] (record_of [(''pk'', Str ''X''), (''v'', Num 2)])]
        = find (\<lambda>r. r ''pk'' = Some (Str ''X'')) (visible batch_X2)"
    using update_table_conflict_policy [OF h k] v by simp
  moreover have "map_option (\<lambda>r. r ''v'') (find (\<lambda>r. r ''pk'' = Some (Str ''X'')) (visible batch_X2))
        = Some (Some (Num 2))"
    unfolding v by (simp add: restrict_row_apply record_of_def)
  ultimately show ?thesis using h k by blast
qed

section \<open>Properties of the uploader and of a step\<close>

lemma foreign_keys_loop_chars: "foreign_keys_loop ev (iter_str q) acc = Inr acc"
  by (induction q arbitrary: acc) (simp_all add: iter_str_def)

lemma get_foreign_keys_empty: "get_foreign_keys_from_query ev (Some q) = Inr []"
  by (simp add: get_foreign_keys_from_query_def foreign_keys_loop_chars)

lemma get_int_columns_empty: "get_int_columns_from_query (Some q) = Inr []"
proof -
  have "filter (contains ''INT'') (iter_str q) = []"
    by (induction q) (simp_all add: iter_str_def)
  then show ?thesis by (simp add: get_int_columns_from_query_def)
qed

lemma run_steps_first:
  "take 2 (fst (run_steps call ((name, func) # rest) w)) =
     [Starting name, (case fst (call func w) of Inr u \<Rightarrow> Completed name | Inl e \<Rightarrow> ErrorIn name e)]"
proof -
  obtain r w' where c: "call func w = (r, w')" by (cases "call func w")
  obtain evs w'' where t: "run_steps call rest w' = (evs, w'')" by (cases "run_steps call rest w'")
  show ?thesis using c t by (cases r) simp_all
qed

lemma run_workflow_first:
  "take 2 (fst (run_workflow call None w)) =
     [Starting ''seasons'',
      (case fst (call Update_seasons w) of
         Inr u \<Rightarrow> Completed ''seasons''
       | Inl e \<Rightarrow> ErrorIn ''seasons'' e)]"
  unfolding run_workflow_def start_index_def steps_def by (simp only: option.case drop_0 run_steps_first)

lemmas step_eval =
  update_seasons_def load_data_def valid_entity_names_def table_path_def clean_path_def
  backup_path_def fmt_def clean_save_update_data_def clean_save_update_body_def save_data_def
  input_def lower_def lower_char_def backup_table_def update_table_def new_table_def dropna_def
  drop_duplicates_def concat_frames_def FbrefClean_update_db_dict_def column_def log_error_def
  upload_clean_data_def read_csv_def check_table_constraints_def load_table_def
  get_foreign_keys_empty get_int_columns_empty upload_to_db_def range_step_def to_sql_def
  UploadSoccerDB_update_db_dict_def restrict_row_apply cells_def

text \<open>
  C1 at a failing input. Season 2023 is in production and in the index; the batch holds
  2023 and 2024 and the operator confirms. After the step the production CSV and the
  database table hold both seasons and nothing was logged as an error, but the index
  entry lists only 2024, the key the batch added.
\<close>

theorem update_seasons_index_holds_delta:
  "(case update_seasons env0 (Some seasons_query) ''season'' (Inr (Some seasons_batch))
           ''u1'' ''2024-07-01'' world0 of
      (r, w) \<Rightarrow>
        (r, map_option ids (db_dict w ''seasons''), errors w,
         cells [''season''] (read_csv (table_path ''seasons'') w),
         map_option (\<lambda>t. map (\<lambda>r. r ''season'') (rows t)) (store w ''seasons'')))
   = (Inr (), Some [Some (Str ''2024'')], [],
      Inr [[Some (Str ''2023'')], [Some (Str ''2024'')]],
      Some [Some (Str ''2023''), Some (Str ''2024'')])"
  by (simp add: step_eval world0_def files0_def env0_def seasons_old_def seasons_batch_def
      record_of_def)

text \<open>
  C2 at a failing input. The query declares the foreign key \<open>tid\<close>, the index knows the
  team \<open>t_known\<close> only, and the batch row names \<open>t_unknown\<close>. The scan of the query finds
  no foreign key, and the row is in the output of the check.
\<close>

theorem check_table_constraints_keeps_unknown_team:
  "contains ''FOREIGN KEY (tid) REFERENCES teams(tid)'' matches_query
   \<and> get_foreign_keys_from_query env_fk (Some matches_query) = Inr []
   \<and> map_option ids (db_dict world_fk ''teams'') = Some [Some (Str ''t_known'')]
   \<and> cells [''match_id'', ''tid'']
        (fst (check_table_constraints env_fk ''matches'' ''match_id'' (Some matches_query)
                matches_batch world_fk))
     = Inr [[Some (Str ''m1''), Some (Str ''t_unknown'')]]"
proof -
  have "contains ''FOREIGN KEY (tid) REFERENCES teams(tid)'' matches_query"
    by (simp add: matches_query_def)
  moreover have "cells [''match_id'', ''tid'']
        (fst (check_table_constraints env_fk ''matches'' ''match_id'' (Some matches_query)
                matches_batch world_fk))
     = Inr [[Some (Str ''m1''), Some (Str ''t_unknown'')]]"
    by (simp add: check_table_constraints_def load_table_def get_foreign_keys_empty
        get_int_columns_empty env_fk_def env0_def world_fk_def matches_batch_def cells_def
        record_of_def)
  ultimately show ?thesis by (simp add: get_foreign_keys_empty world_fk_def)
qed

text \<open>
  C3 at a failing input. The batch file is written and the database refuses every
  write: \<open>upload_clean_data\<close> returns without an exception, the refusal is in the
  error log, the table is unchanged, and the index entry, which listed 2023, lists 2024, a
  key that is not in the table. Run as the seasons step, the workflow logs the step as
  completed.
\<close>

theorem store_failure_index_rewritten:
  "(case upload_clean_data env_store_down ''seasons'' ''season'' (Some seasons_query) (Some ''u1'')
           world_batch of
      (r, w) \<Rightarrow>
        (r, map_option ids (db_dict w ''seasons''), errors w,
         map_option (\<lambda>t. map (\<lambda>r. r ''season'') (rows t)) (store w ''seasons'')))
   = (Inr (), Some [Some (Str ''2024'')], [(''upload_to_db'', SqliteError)],
      Some [Some (Str ''2023'')])
   \<and> map_option ids (db_dict world_batch ''seasons'') = Some [Some (Str ''2023'')]
   \<and> take 2 (fst (run_workflow (call_seasons env_store_down) None world0))
     = [Starting ''seasons'', Completed ''seasons'']"
proof -
  have "fst (call_seasons env_store_down Update_seasons world0) = Inr ()"
    by (simp add: step_eval world0_def world_batch_def files0_def env0_def env_store_down_def
      seasons_old_def seasons_batch_def record_of_def call_seasons_def)
  then have "take 2 (fst (run_workflow (call_seasons env_store_down) None world0))
     = [Starting ''seasons'', Completed ''seasons'']"
    by (simp add: run_workflow_first)
  then show ?thesis by (simp add: step_eval world0_def world_batch_def files0_def env0_def env_store_down_def
      seasons_old_def seasons_batch_def record_of_def call_seasons_def)
qed

text \<open>
  C5 at a failing input. The operator answers no at the first prompt of the seasons
  step: the body of \<open>clean_save_update_data\<close> raises, the exception is logged there, and
  the workflow logs the step as completed.
\<close>

theorem cancelled_step_logged_completed:
  "fst (clean_save_update_body ''seasons'' ''season'' seasons_old (Inr (Some seasons_batch))
          ''2024-07-01'' (Some ''u1'') False world_cancel) = Inl Cancelled
   \<and> errors (snd (call_seasons env0 Update_seasons world_cancel))
     = [(''clean_save_update_data'', Cancelled)]
   \<and> take 2 (fst (run_workflow (call_seasons env0) None world_cancel))
     = [Starting ''seasons'', Completed ''seasons'']"
proof -
  have "fst (call_seasons env0 Update_seasons world_cancel) = Inr ()"
    by (simp add: step_eval world0_def world_cancel_def files0_def env0_def seasons_old_def
      seasons_batch_def record_of_def call_seasons_def)
  then have "take 2 (fst (run_workflow (call_seasons env0) None world_cancel))
     = [Starting ''seasons'', Completed ''seasons'']"
    by (simp add: run_workflow_first)
  moreover have "errors (snd (call_seasons env0 Update_seasons world_cancel))
     = [(''clean_save_update_data'', Cancelled)]"
    by (simp add: step_eval world0_def world_cancel_def files0_def env0_def seasons_old_def
      seasons_batch_def record_of_def call_seasons_def)
  moreover have "fst (clean_save_update_body ''seasons'' ''season'' seasons_old
          (Inr (Some seasons_batch)) ''2024-07-01'' (Some ''u1'') False world_cancel) = Inl Cancelled"
    by (simp add: step_eval world0_def world_cancel_def files0_def env0_def seasons_old_def
      seasons_batch_def record_of_def call_seasons_def)
  ultimately show ?thesis by blast
qed

section \<open>Properties of the reconciler\<close>

lemma keyed_Inr:
  assumes "keyed pk df = Inr k"
  shows "rows k = keep_first pk {} (with_key pk (rows df))"
    and "columns k = removeAll pk (columns df)"
  using assms
  by (auto simp: keyed_def dropna_def drop_duplicates_def set_index_def with_key_def
      split: if_splits)

lemma fill_from_keeps:
  assumes "col \<noteq> pk"
  shows "list_all2 (\<lambda>r r'. r' pk = r pk \<and> (r c \<noteq> None \<longrightarrow> r' c = r c))
           (rows p) (rows (fill_from pk col p s))"
  using assms by (simp add: fill_from_def list_all2_map2 list_all2_same)

lemma keeps_trans:
  assumes "list_all2 (\<lambda>r r'. r' pk = r pk \<and> (r c \<noteq> None \<longrightarrow> r' c = r c)) xs ys"
    and "list_all2 (\<lambda>r r'. r' pk = r pk \<and> (r c \<noteq> None \<longrightarrow> r' c = r c)) ys zs"
  shows "list_all2 (\<lambda>r r'. r' pk = r pk \<and> (r (c::string) \<noteq> (None::val option) \<longrightarrow> r' c = r c)) xs zs"
  using assms(1) assms(2)
proof (induction arbitrary: zs rule: list_all2_induct)
  case Nil
  then show ?case by simp
next
  case (Cons x xs y ys)
  from Cons.prems obtain z zs' where z: "zs = z # zs'"
    and yz: "z pk = y pk \<and> (y c \<noteq> None \<longrightarrow> z c = y c)"
    and rest: "list_all2 (\<lambda>r r'. r' pk = r pk \<and> (r c \<noteq> None \<longrightarrow> r' c = r c)) ys zs'"
    by (auto simp: list_all2_Cons1)
  have "z pk = x pk \<and> (x c \<noteq> None \<longrightarrow> z c = x c)" using Cons.hyps(1) yz by auto
  then show ?case using z Cons.IH [OF rest] by simp
qed

lemma review_loop_keeps:
  assumes "pk \<notin> set (columns p)"
  shows "columns (fst (review_loop pk cols p s)) = columns p
       \<and> rows (snd (review_loop pk cols p s)) = rows s
       \<and> list_all2 (\<lambda>r r'. r' pk = r pk \<and> (r c \<noteq> None \<longrightarrow> r' c = r c))
            (rows p) (rows (fst (review_loop pk cols p s)))"
  using assms
proof (induction cols arbitrary: p s)
  case Nil
  then show ?case by (simp add: list_all2_same)
next
  case (Cons col cols)
  show ?case
  proof (cases "col \<in> set (columns p) \<and> col \<in> set (columns s)")
    case False
    then show ?thesis by (auto simp: list_all2_same)
  next
    case True
    let ?p1 = "fill_from pk col p s"
    let ?s1 = "s\<lparr>columns := removeAll col (columns s)\<rparr>"
    have ne: "col \<noteq> pk" using True Cons.prems by auto
    have c1: "columns ?p1 = columns p" by (simp add: fill_from_def)
    then have "pk \<notin> set (columns ?p1)" using Cons.prems by simp
    from Cons.IH [OF this, of ?s1]
    have ih: "columns (fst (review_loop pk cols ?p1 ?s1)) = columns ?p1"
      "rows (snd (review_loop pk cols ?p1 ?s1)) = rows ?s1"
      "list_all2 (\<lambda>r r'. r' pk = r pk \<and> (r c \<noteq> None \<longrightarrow> r' c = r c))
            (rows ?p1) (rows (fst (review_loop pk cols ?p1 ?s1)))"
      by blast+
    have step: "review_loop pk (col # cols) p s = review_loop pk cols ?p1 ?s1"
      using True by simp
    have "list_all2 (\<lambda>r r'. r' pk = r pk \<and> (r c \<noteq> None \<longrightarrow> r' c = r c))
            (rows p) (rows (fst (review_loop pk cols ?p1 ?s1)))"
      using keeps_trans [OF fill_from_keeps [OF ne] ih(3)] .
    then show ?thesis unfolding step using ih(1,2) c1 by simp
  qed
qed

lemma filter_distinct_key:
  "distinct (map f xs) \<Longrightarrow>
   filter (\<lambda>r. f r = k) xs = (case find (\<lambda>r. f r = k) xs of None \<Rightarrow> [] | Some r \<Rightarrow> [r])"
proof (induction xs)
  case Nil
  then show ?case by simp
next
  case (Cons x xs)
  show ?case
  proof (cases "f x = k")
    case True
    then have "k \<notin> f ` set xs" using Cons.prems by auto
    then have "filter (\<lambda>r. f r = k) xs = []" by (auto simp: filter_empty_conv)
    then show ?thesis using True by simp
  next
    case False
    then show ?thesis using Cons by simp
  qed
qed

lemma merge_left_rows:
  assumes "merge_left pk left right = Inr m"
    and "distinct (map (\<lambda>r. r pk) (rows right))"
  shows "rows m = map (\<lambda>l. joined_row (columns left) (removeAll pk (columns right)) l
                         (find (\<lambda>r. r pk = l pk) (rows right))) (rows left)"
    and "columns m = map (left_label (removeAll pk (columns right))) (columns left)
                     @ map (right_label (columns left)) (removeAll pk (columns right))"
proof -
  have one: "\<And>l. (case filter (\<lambda>r. r pk = l pk) (rows right) of
                 [] \<Rightarrow> [joined_row (columns left) (removeAll pk (columns right)) l None]
               | ms \<Rightarrow> map (\<lambda>r. joined_row (columns left) (removeAll pk (columns right)) l (Some r)) ms)
             = [joined_row (columns left) (removeAll pk (columns right)) l
                  (find (\<lambda>r. r pk = l pk) (rows right))]"
    by (simp add: filter_distinct_key [OF assms(2)] split: option.splits)
  have m: "m = \<lparr>columns = map (left_label (removeAll pk (columns right))) (columns left)
                     @ map (right_label (columns left)) (removeAll pk (columns right)),
               rows = concat (map (\<lambda>l. [joined_row (columns left) (removeAll pk (columns right)) l
                  (find (\<lambda>r. r pk = l pk) (rows right))]) (rows left))\<rparr>"
    using assms(1) unfolding merge_left_def Let_def one by (simp split: if_splits)
  show "rows m = map (\<lambda>l. joined_row (columns left) (removeAll pk (columns right)) l
                         (find (\<lambda>r. r pk = l pk) (rows right))) (rows left)"
    unfolding m by (induction "rows left") (simp_all add: concat_map_singleton)
  show "columns m = map (left_label (removeAll pk (columns right))) (columns left)
                     @ map (right_label (columns left)) (removeAll pk (columns right))"
    unfolding m by simp
qed

lemma ends_with_append: "ends_with suffix (c @ suffix)"
  by (simp add: ends_with_def)

lemma find_eq_Some: "x \<in> set xs \<Longrightarrow> find (\<lambda>c. c = x) xs = Some x"
  by (induction xs) auto

lemma joined_row_left:
  assumes "\<not> ends_with ''_x'' col" and "col \<in> set lcols" and "col \<notin> set rcols"
  shows "joined_row lcols rcols l m col = l col"
proof -
  have "\<And>c. (left_label rcols c = col) = (c = col)"
    using assms(1,3) ends_with_append [of "''_x''"] by (auto simp: left_label_def)
  then have "find (\<lambda>c. left_label rcols c = col) lcols = Some col"
    using find_eq_Some [OF assms(2)] by simp
  then show ?thesis by (simp add: joined_row_def)
qed

lemma label_from_left:
  assumes "col \<in> set (map (left_label rcols) lcols @ map (right_label lcols) rcols)"
    and "col \<in> set lcols"
    and "\<not> ends_with ''_x'' col" and "\<not> ends_with ''_y'' col"
  shows "col \<notin> set rcols"
proof
  assume r: "col \<in> set rcols"
  from assms(1) consider c where "c \<in> set lcols" "left_label rcols c = col"
    | c where "c \<in> set rcols" "right_label lcols c = col" by auto
  then show False
  proof cases
    case 1
    then show False
      using r assms(3) ends_with_append [of "''_x''" c] by (auto simp: left_label_def split: if_splits)
  next
    case 2
    then show False
      using assms(2,4) ends_with_append [of "''_y''" c] by (auto simp: right_label_def split: if_splits)
  qed
qed

lemma reconcile_keeps:
  assumes rec: "reconcile pk review_cols (Some cs) p s = Inr out"
    and pk: "pk \<notin> set (columns p)"
    and dist: "distinct (map (\<lambda>r. r pk) (rows s))"
    and col: "col \<in> set cs" "col \<in> set (columns p) \<or> col = pk"
    and sfx: "\<not> ends_with ''_x'' col" "\<not> ends_with ''_y'' col"
  shows "list_all2 (\<lambda>r r'. r col \<noteq> None \<longrightarrow> r' col = r col) (rows p) (rows out)"
proof -
  define ps where "ps = (case review_cols of None \<Rightarrow> (p, s) | Some cols \<Rightarrow> review_loop pk cols p s)"
  define p' where "p' = fst ps"
  define s' where "s' = snd ps"
  have inv: "columns p' = columns p \<and> rows s' = rows s
       \<and> list_all2 (\<lambda>r r'. r' pk = r pk \<and> (r col \<noteq> None \<longrightarrow> r' col = r col)) (rows p) (rows p')"
  proof (cases review_cols)
    case None
    then show ?thesis by (simp add: p'_def s'_def ps_def list_all2_same)
  next
    case (Some cols)
    then show ?thesis using review_loop_keeps [OF pk, of cols s col] by (simp add: p'_def s'_def ps_def)
  qed
  from rec obtain m where m: "merge_left pk (reset_index pk p') (reset_index pk s') = Inr m"
    and sel: "select_columns cs m = Inr out"
    unfolding reconcile_def ps_def [symmetric]
    by (auto simp: p'_def s'_def split: prod.splits sum.splits)
  let ?lcols = "pk # columns p"
  let ?rcols = "removeAll pk (columns s')"
  have d: "distinct (map (\<lambda>r. r pk) (rows (reset_index pk s')))"
    using dist inv by (simp add: reset_index_def)
  have rm: "rows m = map (\<lambda>l. joined_row ?lcols ?rcols l (find (\<lambda>r. r pk = l pk) (rows s'))) (rows p')"
    using merge_left_rows(1) [OF m d] inv by (simp add: reset_index_def)
  have cm: "columns m = map (left_label ?rcols) ?lcols @ map (right_label ?lcols) ?rcols"
    using merge_left_rows(2) [OF m d] inv by (simp add: reset_index_def)
  from sel have all: "list_all (\<lambda>c. c \<in> set (columns m)) cs"
    and ro: "rows out = map (restrict_row cs) (rows m)"
    by (auto simp: select_columns_def split: if_splits)
  have "col \<in> set (columns m)" using all col(1) by (simp add: list_all_iff)
  then have inl: "col \<in> set (map (left_label ?rcols) ?lcols @ map (right_label ?lcols) ?rcols)"
    using cm by simp
  have lc: "col \<in> set ?lcols" using col(2) by auto
  have nr: "col \<notin> set ?rcols" using label_from_left [OF inl lc sfx] .
  have cell: "\<And>l x. restrict_row cs (joined_row ?lcols ?rcols l x) col = l col"
    using joined_row_left [OF sfx(1) lc nr] col(1) by (simp add: restrict_row_def)
  have "list_all2 (\<lambda>r r'. r col \<noteq> None \<longrightarrow> r' col = r col) (rows p) (rows out)"
    unfolding ro rm map_map comp_def list_all2_map2 cell
    using inv by (auto elim: list_all2_mono)
  then show ?thesis .
qed

text \<open>
  C6, as stated, fails. Both sub-tables have columns \<open>a\<close> and \<open>a_x\<close>; the review list
  is \<open>zz\<close>, \<open>a_x\<close>, and the secondary table has no \<open>zz\<close>, so the loop is left before
  \<open>a_x\<close>. The merge relabels the primary's \<open>a\<close> as \<open>a_x\<close>: the primary row holds 5
  under the review column \<open>a_x\<close>, the output holds the primary's \<open>a\<close>, 7.
\<close>

theorem reconcile_fill_only_counterexample:
  "cells [''player_match'', ''a_x'']
     (fst (concat_clean_save_all_match_stats no_outer ''player_matches'' ''player_match''
             [''summary'', ''passing''] (Some [''zz'', ''a_x''])
             (Some [''player_match'', ''a_x'']) (Some ''u1'') world_ax))
     = Inr [[Some (Str ''p1_m1''), Some (Num 7)]]
   \<and> cells [''player_match'', ''a_x'']
        (read_csv (temp_path ''player_matches'' ''summary'' (Some ''u1'')) world_ax)
     = Inr [[Some (Str ''p1_m1''), Some (Num 5)]]"
  by (simp add: concat_clean_save_all_match_stats_def read_csv_def temp_path_def fmt_def
      clean_path_def keyed_def dropna_def drop_duplicates_def set_index_def reset_index_def
      reconcile_def fill_from_def merge_left_def left_label_def right_label_def joined_row_def
      select_columns_def save_data_def cells_def restrict_row_apply record_of_def Let_def
      world_ax_def summary_ax_def passing_ax_def no_outer_def)

text \<open>
  C6, amended: for every column of the primary sub-table that is among the output
  columns and whose label does not end in \<open>_x\<close> or \<open>_y\<close> (review columns among them),
  the output has one row per row of the deduplicated primary sub-table, in the same
  order, and where the primary cell is not null the output cell is the primary cell,
  whatever the secondary sub-tables hold and whatever the outer merge does.
\<close>

theorem reconcile_fill_only:
  assumes "fst (concat_clean_save_all_match_stats outer name pk (primary_stat # others)
                  review_cols (Some cs) update_id w) = Inr out"
    and "read_csv (temp_path name primary_stat update_id) w = Inr prim"
    and "col \<in> set (columns prim)"
    and "col \<in> set cs"
    and "\<not> ends_with ''_x'' col" and "\<not> ends_with ''_y'' col"
  shows "list_all2 (\<lambda>r r'. r col \<noteq> None \<longrightarrow> r' col = r col)
           (keep_first pk {} (with_key pk (rows prim))) (rows out)"
proof -
  from assms(1,2) obtain merged df_concat primary_stat_df where
    kc: "keyed pk merged = Inr df_concat" and kp: "keyed pk prim = Inr primary_stat_df"
    and rec: "reconcile pk review_cols (Some cs) primary_stat_df df_concat = Inr out"
    unfolding concat_clean_save_all_match_stats_def
    by (auto split: sum.splits list.splits)
  have pk: "pk \<notin> set (columns primary_stat_df)" using keyed_Inr(2) [OF kp] by simp
  have dist: "distinct (map (\<lambda>r. r pk) (rows df_concat))"
    using keyed_Inr(1) [OF kc] by (simp add: keep_first_distinct)
  have c: "col \<in> set (columns primary_stat_df) \<or> col = pk"
    using keyed_Inr(2) [OF kp] assms(3) by auto
  show ?thesis
    using reconcile_keeps [OF rec pk dist assms(4) c assms(5,6)] keyed_Inr(1) [OF kp] by simp
qed

text \<open>
  C6, amended, on a player-matches batch: the summary row has no minutes and one goal,
  the passing row of the same key has 90 minutes and nine goals. The output keeps the
  goal of the summary row, takes the minutes from the passing row, and adds the passes.
\<close>

theorem reconcile_fill_only_witness:
  "fst (concat_clean_save_all_match_stats no_outer ''player_matches'' ''player_match''
          [''summary'', ''passing''] (Some [''minutes'', ''goals''])
          (Some [''player_match'', ''minutes'', ''goals'', ''passes'']) (Some ''u1'') world_stats)
     = Inr (projr (fst (concat_clean_save_all_match_stats no_outer ''player_matches''
          ''player_match'' [''summary'', ''passing''] (Some [''minutes'', ''goals''])
          (Some [''player_match'', ''minutes'', ''goals'', ''passes'']) (Some ''u1'') world_stats)))
   \<and> read_csv (temp_path ''player_matches'' ''summary'' (Some ''u1'')) world_stats = Inr summary_df
   \<and> ''goals'' \<in> set (columns summary_df)
   \<and> ''goals'' \<in> set [''player_match'', ''minutes'', ''goals'', ''passes'']
   \<and> \<not> ends_with ''_x'' ''goals'' \<and> \<not> ends_with ''_y'' ''goals''
   \<and> list_all2 (\<lambda>r r'. r ''goals'' \<noteq> None \<longrightarrow> r' ''goals'' = r ''goals'')
        (keep_first ''player_match'' {} (with_key ''player_match'' (rows summary_df)))
        (rows (projr (fst (concat_clean_save_all_match_stats no_outer ''player_matches''
          ''player_match'' [''summary'', ''passing''] (Some [''minutes'', ''goals''])
          (Some [''player_match'', ''minutes'', ''goals'', ''passes'']) (Some ''u1'') world_stats))))
   \<and> cells [''player_match'', ''minutes'', ''goals'', ''passes'']
        (fst (concat_clean_save_all_match_stats no_outer ''player_matches'' ''player_match''
          [''summary'', ''passing''] (Some [''minutes'', ''goals''])
          (Some [''player_match'', ''minutes'', ''goals'', ''passes'']) (Some ''u1'') world_stats))
     = Inr [[Some (Str ''p1_m1''), Some (Num 90), Some (Num 1), Some (Num 10)]]"
proof -
  define F where "F = fst (concat_clean_save_all_match_stats no_outer ''player_matches''
          ''player_match'' [''summary'', ''passing''] (Some [''minutes'', ''goals''])
          (Some [''player_match'', ''minutes'', ''goals'', ''passes'']) (Some ''u1'') world_stats)"
  have ev: "cells [''player_match'', ''minutes'', ''goals'', ''passes''] F
              = Inr [[Some (Str ''p1_m1''), Some (Num 90), Some (Num 1), Some (Num 10)]]"
    unfolding F_def
    by (simp add: concat_clean_save_all_match_stats_def read_csv_def temp_path_def fmt_def
      clean_path_def keyed_def dropna_def drop_duplicates_def set_index_def reset_index_def
      reconcile_def fill_from_def merge_left_def left_label_def right_label_def joined_row_def
      select_columns_def save_data_def cells_def restrict_row_apply record_of_def Let_def
      world_stats_def summary_df_def passing_df_def no_outer_def)
  have h1: "F = Inr (projr F)" using ev by (cases F) (simp_all add: cells_def)
  have h2: "read_csv (temp_path ''player_matches'' ''summary'' (Some ''u1'')) world_stats = Inr summary_df"
    by (simp add: read_csv_def temp_path_def fmt_def world_stats_def)
  have h3: "''goals'' \<in> set (columns summary_df)" by (simp add: summary_df_def)
  have h4: "''goals'' \<in> set [''player_match'', ''minutes'', ''goals'', ''passes'']" by simp
  have h5: "\<not> ends_with ''_x'' ''goals''" by (simp add: ends_with_def)
  have h6: "\<not> ends_with ''_y'' ''goals''" by (simp add: ends_with_def)
  have "list_all2 (\<lambda>r r'. r ''goals'' \<noteq> None \<longrightarrow> r' ''goals'' = r ''goals'')
        (keep_first ''player_match'' {} (with_key ''player_match'' (rows summary_df)))
        (rows (projr F))"
    using reconcile_fill_only [OF h1 [unfolded F_def] h2 h3 h4 h5 h6] unfolding F_def .
  then show ?thesis using ev h1 h2 h3 h4 h5 h6 unfolding F_def by blast
qed

end
